theory Spec2Isabelle
  imports Complex_Main
begin

section \<open>Data model of \<^verbatim>\<open>grading_metrics/speeding.py\<close>\<close>

text \<open>
  Lane ids are the strings the map and the routing plan use. Timestamps, coordinates,
  speeds and distances are Python floats; they are modelled as real numbers, so the
  rounding of float arithmetic is not part of the model.
\<close>

type_synonym lane_id = string

text \<open>
  A routing response is walked as \<^verbatim>\<open>msg.road[i].passage[j].segment[k].id\<close>:
  a passage is the list of its segments' ids, a road the list of its passages.
\<close>

type_synonym passage = "lane_id list"
type_synonym road = "passage list"
type_synonym routing_response = "road list"

text \<open>The exceptions the pass can raise; none of them is caught in the module.\<close>

datatype error = AttributeError | KeyError | IndexError

record localization_pose =
  position :: "real \<times> real"
  linear_velocity :: "real \<times> real"

text \<open>
  The decoded payload, reduced to what the pass reads from it:
  \<^verbatim>\<open>header.timestamp_sec\<close>, \<^verbatim>\<open>debug.planning_data.routing\<close> and \<^verbatim>\<open>pose\<close>.
  A component is \<open>None\<close> for an object on which the attribute read raises
  \<open>AttributeError\<close>. The messages of a record are protobuf messages, on which no read
  raises: see \<open>proto_read\<close> below.
\<close>

record payload =
  timestamp_sec :: "real option"
  routing :: "routing_response option"
  pose :: "localization_pose option"

text \<open>A message is the tuple \<^verbatim>\<open>(channel_name, _, parsed_msg, _, _)\<close>.\<close>

record message =
  channel_name :: string
  parsed_msg :: payload

text \<open>
  The payload of a recorded message is a protobuf message: each field the pass reads is
  set or unset. The decoder is not part of the module. Reading an unset field of a
  protobuf message raises nothing and returns the default of the field: 0 for the
  number \<^verbatim>\<open>timestamp_sec\<close>, no roads for the repeated field \<^verbatim>\<open>road\<close> of the routing,
  the zero position and velocity for the pose. \<open>proto_read\<close> is what the attribute
  reads of the pass return on such a message.
\<close>

record proto_payload =
  proto_timestamp_sec :: "real option"
  proto_routing :: "routing_response option"
  proto_pose :: "localization_pose option"

definition proto_read :: "proto_payload \<Rightarrow> payload" where
  "proto_read w =
     \<lparr>timestamp_sec = Some (case proto_timestamp_sec w of None \<Rightarrow> 0 | Some t \<Rightarrow> t),
      routing = Some (case proto_routing w of None \<Rightarrow> [] | Some r \<Rightarrow> r),
      pose = Some (case proto_pose w of
                     None \<Rightarrow> \<lparr>position = (0, 0), linear_velocity = (0, 0)\<rparr>
                   | Some p \<Rightarrow> p)\<rparr>"

definition proto_msg :: "string \<Rightarrow> proto_payload \<Rightarrow> message" where
  "proto_msg ch w = \<lparr>channel_name = ch, parsed_msg = proto_read w\<rparr>"

text \<open>
  A lane of the map: its speed limit in m/s, and its geometry, which only the geometry
  service reads.
\<close>

record lane =
  speed_limit :: real
  geometry :: "(real \<times> real) list"

type_synonym lanes = "lane_id \<rightharpoonup> lane"

text \<open>
  The collaborators that are not part of the module, taken as parameters:
  \<^item> \<open>efficient_fetch_lane x y current_lane lanes priority_lanes\<close> is
    \<^verbatim>\<open>map_tools.efficient_fetch_lane\<close>;
  \<^item> \<open>polygon_distance pose lane\<close> is
    \<^verbatim>\<open>construct_adc_polygon(pose).distance(construct_lane_linestring(lane))\<close>;
  \<^item> \<open>point_distance x y lane\<close> is
    \<^verbatim>\<open>Point(x, y).distance(construct_lane_linestring(lane))\<close>.
\<close>

record services =
  efficient_fetch_lane ::
    "real \<Rightarrow> real \<Rightarrow> lane_id option \<Rightarrow> lanes \<Rightarrow> lane_id list option \<Rightarrow> lane_id list"
  polygon_distance :: "localization_pose \<Rightarrow> lane \<Rightarrow> real"
  point_distance :: "real \<Rightarrow> real \<Rightarrow> lane \<Rightarrow> real"

text \<open>
  The local variables of \<^verbatim>\<open>walk_msg_section\<close> that live across loop iterations,
  together with the caller's \<^verbatim>\<open>dist_list\<close>, which the loop appends to.
\<close>

record state =
  traveled_lanes :: "lane_id set"
  current_lane :: "lane_id option"
  priority_lanes :: "lane_id list option"
  off_road_candidate_lane :: "lane_id option"
  intersect_start_time :: "real option"
  next_lanes :: "lane_id list"
  min_speed :: real
  dist_to_boundary :: real
  speed_diff :: real
  localization_num :: nat
  init_timestamp :: "real option"
  dist_list :: "real list"

definition OFF_LANE_THRESHOLD :: real where
  "OFF_LANE_THRESHOLD = 5"

definition sys_maxsize :: real where
  "sys_maxsize = 9223372036854775807"

section \<open>\<^verbatim>\<open>calculate_speed\<close> and \<^verbatim>\<open>get_next_lanes\<close>\<close>

definition calculate_speed :: "real \<times> real \<Rightarrow> real" where
  "calculate_speed v = sqrt ((fst v)\<^sup>2 + (snd v)\<^sup>2)"

text \<open>
  The three nested loops of \<^verbatim>\<open>get_next_lanes\<close>, innermost first. The accumulator is
  the pair \<^verbatim>\<open>(next_lanes, is_hit)\<close>.
\<close>

fun segment_loop ::
  "lane_id option \<Rightarrow> passage \<Rightarrow> lane_id list \<times> bool \<Rightarrow> lane_id list \<times> bool" where
  "segment_loop current_lane_id [] acc = acc"
| "segment_loop current_lane_id (lane_id # segs) (nl, is_hit) =
     (let is_hit' = (if Some lane_id = current_lane_id then True else is_hit);
          nl' = (if is_hit' \<or> current_lane_id = None then nl @ [lane_id] else nl)
      in segment_loop current_lane_id segs (nl', is_hit'))"

fun passage_loop ::
  "lane_id option \<Rightarrow> road \<Rightarrow> lane_id list \<times> bool \<Rightarrow> lane_id list \<times> bool" where
  "passage_loop current_lane_id [] acc = acc"
| "passage_loop current_lane_id (p # ps) acc =
     passage_loop current_lane_id ps (segment_loop current_lane_id p acc)"

fun road_loop ::
  "lane_id option \<Rightarrow> routing_response \<Rightarrow> lane_id list \<times> bool \<Rightarrow> lane_id list \<times> bool" where
  "road_loop current_lane_id [] acc = acc"
| "road_loop current_lane_id (r # rs) acc =
     road_loop current_lane_id rs (passage_loop current_lane_id r acc)"

definition get_next_lanes :: "routing_response \<Rightarrow> lane_id option \<Rightarrow> lane_id list" where
  "get_next_lanes routing_response_msg current_lane_id =
     fst (road_loop current_lane_id routing_response_msg ([], False))"

text \<open>The lane ids of a plan in the order the loops visit them.\<close>

definition plan_lanes :: "routing_response \<Rightarrow> lane_id list" where
  "plan_lanes routing_response_msg = concat (concat routing_response_msg)"

section \<open>The lane choice of \<^verbatim>\<open>walk_msg_section\<close>\<close>

text \<open>\<^verbatim>\<open>list.index\<close>: the first position of the element, \<open>None\<close> for \<^verbatim>\<open>ValueError\<close>.\<close>

fun list_index :: "'a list \<Rightarrow> 'a \<Rightarrow> nat option" where
  "list_index [] a = None"
| "list_index (b # bs) a =
     (if b = a then Some 0
      else (case list_index bs a of None \<Rightarrow> None | Some i \<Rightarrow> Some (Suc i)))"

text \<open>
  The loop over the candidates; the accumulator is \<^verbatim>\<open>(back_lane, loc)\<close>. Each candidate
  found in \<^verbatim>\<open>next_lanes\<close> overwrites \<^verbatim>\<open>loc\<close>, each other candidate found in
  \<^verbatim>\<open>traveled_lanes\<close> overwrites \<^verbatim>\<open>back_lane\<close>.
\<close>

fun suspect_loop ::
  "lane_id list \<Rightarrow> lane_id list \<Rightarrow> lane_id set \<Rightarrow> lane_id option \<times> nat option
     \<Rightarrow> lane_id option \<times> nat option" where
  "suspect_loop [] nl traveled acc = acc"
| "suspect_loop (suspect_lane # rest) nl traveled (back_lane, loc) =
     (case list_index nl suspect_lane of
        Some i \<Rightarrow> suspect_loop rest nl traveled (back_lane, Some i)
      | None \<Rightarrow>
          (if suspect_lane \<in> traveled
           then suspect_loop rest nl traveled (Some suspect_lane, loc)
           else suspect_loop rest nl traveled (back_lane, loc)))"

text \<open>
  The new value of \<^verbatim>\<open>current_lane\<close> from the candidates \<^verbatim>\<open>current_lanes\<close>
  (lines 120 to 138). \<^verbatim>\<open>next_lanes[loc]\<close> raises \<open>IndexError\<close> out of range.
\<close>

definition resolve_current_lane ::
  "lane_id list \<Rightarrow> lane_id list \<Rightarrow> lane_id set \<Rightarrow> error + lane_id option" where
  "resolve_current_lane current_lanes nl traveled =
     (if length current_lanes = 1 then Inr (Some (hd current_lanes))
      else if length current_lanes > 1 then
        (case suspect_loop current_lanes nl traveled (None, None) of
           (back_lane, Some loc) \<Rightarrow>
             (if loc < length nl then Inr (Some (nl ! loc)) else Inl IndexError)
         | (Some b, None) \<Rightarrow> Inr (Some b)
         | (None, None) \<Rightarrow> Inr (Some (hd current_lanes)))
      else Inr None)"

section \<open>One iteration of the message loop\<close>

text \<open>Lines 98 to 100: a planning message replaces \<^verbatim>\<open>next_lanes\<close>.\<close>

definition planning_update :: "state \<Rightarrow> message \<Rightarrow> error + state" where
  "planning_update s m =
     (if channel_name m = ''/apollo/planning'' then
        (case routing (parsed_msg m) of
           None \<Rightarrow> Inl AttributeError
         | Some routing_response_msg \<Rightarrow>
             Inr (s\<lparr>next_lanes := get_next_lanes routing_response_msg (current_lane s)\<rparr>))
      else Inr s)"

text \<open>Lines 160 to 174: the speed margin and its running minimum.\<close>

definition speeding_detection :: "state \<Rightarrow> real \<Rightarrow> real \<Rightarrow> nat \<Rightarrow> state" where
  "speeding_detection s limit current_speed n_candidates =
     (if limit \<noteq> 0 \<or> n_candidates > 1 then
        (let s1 = s\<lparr>speed_diff := limit - current_speed\<rparr>
         in if speed_diff s1 < min_speed s1 then s1\<lparr>min_speed := speed_diff s1\<rparr> else s1)
      else s)"

text \<open>Lines 177 to 204: the off-road detection with its registration of a touch.\<close>

definition off_road_detection ::
  "services \<Rightarrow> state \<Rightarrow> real \<Rightarrow> localization_pose \<Rightarrow> lane_id \<Rightarrow> lane \<Rightarrow> state" where
  "off_road_detection env s0 current_time p lane_name lane_obj =
     (let s = s0\<lparr>dist_to_boundary := polygon_distance env p lane_obj\<rparr>;
          center = point_distance env (fst (position p)) (snd (position p)) lane_obj
      in if off_road_candidate_lane s = None \<and> dist_to_boundary s = 0 then
           s\<lparr>off_road_candidate_lane := Some lane_name,
             intersect_start_time := Some current_time\<rparr>
         else
           (case intersect_start_time s of
              Some t0 \<Rightarrow>
                (let time_gap = current_time - t0
                 in if time_gap \<ge> OFF_LANE_THRESHOLD then
                      (if dist_to_boundary s = 0
                       then s\<lparr>dist_list := dist_list s @ [center]\<rparr>
                       else s\<lparr>off_road_candidate_lane := None, intersect_start_time := None\<rparr>)
                    else if time_gap < OFF_LANE_THRESHOLD \<and> dist_to_boundary s \<noteq> 0 then
                      s\<lparr>off_road_candidate_lane := None, intersect_start_time := None\<rparr>
                    else s)
            | None \<Rightarrow> s\<lparr>dist_list := dist_list s @ [center]\<rparr>))"

text \<open>
  Lines 150 to 204, reached after the warm-up \<^verbatim>\<open>continue\<close>s: nothing when the car is
  off-lane, else the lane is recorded as traveled, \<^verbatim>\<open>lanes[current_lane]\<close> is looked up
  (\<open>KeyError\<close> when the map has no such lane), and both detections run.
\<close>

definition grade_step ::
  "services \<Rightarrow> lanes \<Rightarrow> state \<Rightarrow> real \<Rightarrow> localization_pose \<Rightarrow> real \<Rightarrow> nat \<Rightarrow> error + state" where
  "grade_step env lns s current_time p current_speed n_candidates =
     (case current_lane s of
        None \<Rightarrow> Inr s
      | Some lane_name \<Rightarrow>
          (let s1 = s\<lparr>traveled_lanes := insert lane_name (traveled_lanes s)\<rparr>
           in case lns lane_name of
                None \<Rightarrow> Inl KeyError
              | Some lane_obj \<Rightarrow>
                  Inr (off_road_detection env
                         (speeding_detection s1 (speed_limit lane_obj * 3.6)
                            current_speed n_candidates)
                         current_time p lane_name lane_obj)))"

text \<open>
  Lines 115 and 116: the call of the lane resolver, with the carried
  \<^verbatim>\<open>current_lane\<close> and \<^verbatim>\<open>priority_lanes\<close>.
\<close>

definition fetch_current_lanes ::
  "services \<Rightarrow> lanes \<Rightarrow> state \<Rightarrow> localization_pose \<Rightarrow> lane_id list" where
  "fetch_current_lanes env lns s p =
     efficient_fetch_lane env (fst (position p)) (snd (position p))
       (current_lane s) lns (priority_lanes s)"

text \<open>
  Lines 102 to 204: a localization message. The lane is chosen first; the two warm-up
  \<^verbatim>\<open>continue\<close>s come after it. The calls of \<^verbatim>\<open>time.time\<close> and \<^verbatim>\<open>v_print\<close> only
  feed the verbose output and are left out.
\<close>

definition localization_update ::
  "services \<Rightarrow> lanes \<Rightarrow> state \<Rightarrow> real \<Rightarrow> message \<Rightarrow> error + state" where
  "localization_update env lns s current_time m =
     (case pose (parsed_msg m) of
        None \<Rightarrow> Inl AttributeError
      | Some p \<Rightarrow>
          (let s1 = s\<lparr>localization_num := localization_num s + 1\<rparr>;
               current_speed = calculate_speed (linear_velocity p) * 3.6;
               current_lanes = fetch_current_lanes env lns s1 p
           in case resolve_current_lane current_lanes (next_lanes s1) (traveled_lanes s1) of
                Inl e \<Rightarrow> Inl e
              | Inr cl \<Rightarrow>
                  (let s2 = s1\<lparr>current_lane := cl\<rparr>
                   in case init_timestamp s2 of
                        None \<Rightarrow> Inr (s2\<lparr>init_timestamp := Some current_time\<rparr>)
                      | Some t0 \<Rightarrow>
                          (if current_time - t0 \<le> 5 then Inr s2
                           else grade_step env lns s2 current_time p current_speed
                                  (length current_lanes)))))"

text \<open>
  The body of the \<^verbatim>\<open>for\<close> loop: the timestamp is read from every message, then the two
  channel tests follow one another.
\<close>

definition process_msg :: "services \<Rightarrow> lanes \<Rightarrow> state \<Rightarrow> message \<Rightarrow> error + state" where
  "process_msg env lns s m =
     (case timestamp_sec (parsed_msg m) of
        None \<Rightarrow> Inl AttributeError
      | Some current_time \<Rightarrow>
          (case planning_update s m of
             Inl e \<Rightarrow> Inl e
           | Inr s1 \<Rightarrow>
               (if channel_name m = ''/apollo/localization/pose''
                then localization_update env lns s1 current_time m
                else Inr s1)))"

section \<open>The pass\<close>

fun walk_loop :: "services \<Rightarrow> lanes \<Rightarrow> state \<Rightarrow> message list \<Rightarrow> error + state" where
  "walk_loop env lns s [] = Inr s"
| "walk_loop env lns s (m # ms) =
     (case process_msg env lns s m of
        Inl e \<Rightarrow> Inl e
      | Inr s' \<Rightarrow> walk_loop env lns s' ms)"

definition init_state :: "real list \<Rightarrow> state" where
  "init_state dl =
     \<lparr>traveled_lanes = {}, current_lane = None, priority_lanes = None,
      off_road_candidate_lane = None, intersect_start_time = None, next_lanes = [],
      min_speed = sys_maxsize, dist_to_boundary = sys_maxsize, speed_diff = 0,
      localization_num = 0, init_timestamp = None, dist_list = dl\<rparr>"

text \<open>
  \<^verbatim>\<open>walk_msg_section\<close>: the result is the final value of the three containers it
  mutates, \<^verbatim>\<open>(lanes_set, speed_list, dist_list)\<close>, or the exception that ended it.
\<close>

definition walk_msg_section ::
  "services \<Rightarrow> message list \<Rightarrow> lanes \<Rightarrow> lane_id set \<Rightarrow> real list \<Rightarrow> real list
     \<Rightarrow> error + (lane_id set \<times> real list \<times> real list)" where
  "walk_msg_section env messages lns lanes_set speed_list dl =
     (case walk_loop env lns (init_state dl) messages of
        Inl e \<Rightarrow> Inl e
      | Inr s \<Rightarrow> Inr (lanes_set \<union> traveled_lanes s, speed_list @ [min_speed s], dist_list s))"

text \<open>
  The state with which the off-road detection is entered at a message past the warm-up
  whose chosen lane is \<open>l\<close>, found in the map as \<open>lo\<close>: lines 103 to 174.
\<close>

definition graded_state ::
  "services \<Rightarrow> lanes \<Rightarrow> state \<Rightarrow> localization_pose \<Rightarrow> lane_id \<Rightarrow> lane \<Rightarrow> state" where
  "graded_state env lns s p l lo =
     speeding_detection
       (s\<lparr>localization_num := localization_num s + 1, current_lane := Some l,
          traveled_lanes := insert l (traveled_lanes s)\<rparr>)
       (speed_limit lo * 3.6) (calculate_speed (linear_velocity p) * 3.6)
       (length (fetch_current_lanes env lns s p))"

section \<open>Vocabulary of the properties\<close>

text \<open>The registration of a touch is set and cleared as a pair.\<close>

definition paired :: "state \<Rightarrow> bool" where
  "paired s = (off_road_candidate_lane s = None \<longleftrightarrow> intersect_start_time s = None)"

text \<open>
  What one iteration computes on the way, as functions of the state before the message:
  the lane it chooses, whether the message lies past the warm-up window, and the two
  distances of the off-road detection (defined when the iteration reaches line 177).
\<close>

definition step_lane :: "services \<Rightarrow> lanes \<Rightarrow> state \<Rightarrow> message \<Rightarrow> lane_id option" where
  "step_lane env lns s m =
     (case pose (parsed_msg m) of
        None \<Rightarrow> None
      | Some p \<Rightarrow>
          (case resolve_current_lane (fetch_current_lanes env lns s p)
                  (next_lanes s) (traveled_lanes s) of
             Inl e \<Rightarrow> None
           | Inr cl \<Rightarrow> cl))"

definition past_warm_up :: "state \<Rightarrow> message \<Rightarrow> bool" where
  "past_warm_up s m =
     (case (init_timestamp s, timestamp_sec (parsed_msg m)) of
        (Some t0, Some t) \<Rightarrow> t - t0 > 5
      | _ \<Rightarrow> False)"

definition step_lane_obj :: "services \<Rightarrow> lanes \<Rightarrow> state \<Rightarrow> message \<Rightarrow> lane option" where
  "step_lane_obj env lns s m =
     (if channel_name m = ''/apollo/localization/pose'' \<and> past_warm_up s m
      then (case step_lane env lns s m of None \<Rightarrow> None | Some l \<Rightarrow> lns l)
      else None)"

definition step_boundary_distance ::
  "services \<Rightarrow> lanes \<Rightarrow> state \<Rightarrow> message \<Rightarrow> real option" where
  "step_boundary_distance env lns s m =
     (case (step_lane_obj env lns s m, pose (parsed_msg m)) of
        (Some lane_obj, Some p) \<Rightarrow> Some (polygon_distance env p lane_obj)
      | _ \<Rightarrow> None)"

definition step_center_distance ::
  "services \<Rightarrow> lanes \<Rightarrow> state \<Rightarrow> message \<Rightarrow> real option" where
  "step_center_distance env lns s m =
     (case (step_lane_obj env lns s m, pose (parsed_msg m)) of
        (Some lane_obj, Some p) \<Rightarrow>
          Some (point_distance env (fst (position p)) (snd (position p)) lane_obj)
      | _ \<Rightarrow> None)"

text \<open>
  A run of consecutive messages that the pass processes and during which the off-road
  detection never finds the polygon off the boundary: at each message either the
  detection does not run (another channel, the warm-up, no lane) or it finds the
  distance 0.
\<close>

fun touch_run :: "services \<Rightarrow> lanes \<Rightarrow> state \<Rightarrow> message list \<Rightarrow> bool" where
  "touch_run env lns s [] = True"
| "touch_run env lns s (m # ms) =
     ((step_boundary_distance env lns s m = None \<or>
       step_boundary_distance env lns s m = Some 0) \<and>
      (case process_msg env lns s m of
         Inl e \<Rightarrow> False
       | Inr s' \<Rightarrow> touch_run env lns s' ms))"

text \<open>
  A run of consecutive messages at none of which the off-road detection runs.
\<close>

fun idle_run :: "services \<Rightarrow> lanes \<Rightarrow> state \<Rightarrow> message list \<Rightarrow> bool" where
  "idle_run env lns s [] = True"
| "idle_run env lns s (m # ms) =
     (step_boundary_distance env lns s m = None \<and>
      (case process_msg env lns s m of
         Inl e \<Rightarrow> False
       | Inr s' \<Rightarrow> idle_run env lns s' ms))"

text \<open>
  The stream \<open>msgs\<close> of a pass ends with a touch that began at time \<open>t1\<close>: at some
  message with timestamp \<open>t1\<close>, processed with no touch registered, the detection
  found the distance 0, and it has not found the polygon off the boundary since.
\<close>

definition touching_since ::
  "services \<Rightarrow> lanes \<Rightarrow> real list \<Rightarrow> message list \<Rightarrow> real \<Rightarrow> bool" where
  "touching_since env lns dl msgs t1 =
     (\<exists>pre m_reg mid s_a.
        msgs = pre @ m_reg # mid \<and>
        walk_loop env lns (init_state dl) pre = Inr s_a \<and>
        off_road_candidate_lane s_a = None \<and>
        step_boundary_distance env lns s_a m_reg = Some 0 \<and>
        timestamp_sec (parsed_msg m_reg) = Some t1 \<and>
        touch_run env lns s_a (m_reg # mid))"

text \<open>
  The timestamp of the first localization message of a stream, and whether a message
  that follows the messages \<open>pre\<close> lies within the warm-up window (at most 5 after it)
  or past it.
\<close>

definition first_timestamp :: "message list \<Rightarrow> real option" where
  "first_timestamp msgs =
     (case filter (\<lambda>m. channel_name m = ''/apollo/localization/pose'') msgs of
        [] \<Rightarrow> None
      | m0 # rest \<Rightarrow> timestamp_sec (parsed_msg m0))"

definition within_warm_up :: "message list \<Rightarrow> message \<Rightarrow> bool" where
  "within_warm_up pre m =
     (channel_name m = ''/apollo/localization/pose'' \<and>
      (case (first_timestamp (pre @ [m]), timestamp_sec (parsed_msg m)) of
         (Some t0, Some t) \<Rightarrow> t - t0 \<le> 5
       | _ \<Rightarrow> False))"

definition after_warm_up :: "message list \<Rightarrow> message \<Rightarrow> bool" where
  "after_warm_up pre m =
     (channel_name m = ''/apollo/localization/pose'' \<and>
      (case (first_timestamp (pre @ [m]), timestamp_sec (parsed_msg m)) of
         (Some t0, Some t) \<Rightarrow> t - t0 > 5
       | _ \<Rightarrow> False))"


text \<open>
  The centre of the car lies inside its polygon: where the centre is on the lane
  boundary, so is the polygon. A property of the geometry service.
\<close>

definition centre_in_polygon :: "services \<Rightarrow> bool" where
  "centre_in_polygon env =
     (\<forall>p lane_obj.
        point_distance env (fst (position p)) (snd (position p)) lane_obj = 0 \<longrightarrow>
        polygon_distance env p lane_obj = 0)"

text \<open>
  The routing match as the specification words it: the first candidate, in iteration
  order, that is in \<^verbatim>\<open>next_lanes\<close>.
\<close>

definition first_routing_match :: "lane_id list \<Rightarrow> lane_id list \<Rightarrow> lane_id option" where
  "first_routing_match current_lanes nl = find (\<lambda>c. c \<in> set nl) current_lanes"

section \<open>A small map and sessions on it\<close>

text \<open>
  Two lanes along the x axis, whose common boundary is the line \<open>y = 0\<close>; the car is
  a square of half-width 1 around its position. Up to \<open>x = 100\<close> only \<open>lane_a\<close>
  contains the position, from there to \<open>x = 110\<close> both lanes overlap, from there to
  \<open>x = 1000\<close> only \<open>lane_b\<close> does, and beyond it the car is off-lane.
\<close>

definition ex_lanes :: lanes where
  "ex_lanes =
     [''lane_a'' \<mapsto> \<lparr>speed_limit = 10, geometry = [(0, 0), (200, 0)]\<rparr>,
      ''lane_b'' \<mapsto> \<lparr>speed_limit = 0, geometry = [(100, 0), (200, 0)]\<rparr>]"

definition ex_env :: services where
  "ex_env =
     \<lparr>efficient_fetch_lane =
        (\<lambda>x y cur lns pri.
           if x < 100 then [''lane_a'']
           else if x < 110 then [''lane_a'', ''lane_b'']
           else if x < 1000 then [''lane_b'']
           else []),
      polygon_distance = (\<lambda>p lane_obj. max 0 (\<bar>snd (position p)\<bar> - 1)),
      point_distance = (\<lambda>x y lane_obj. \<bar>y\<bar>)\<rparr>"

definition pose_msg :: "real \<Rightarrow> real \<Rightarrow> real \<Rightarrow> message" where
  "pose_msg t x y =
     \<lparr>channel_name = ''/apollo/localization/pose'',
      parsed_msg = \<lparr>timestamp_sec = Some t, routing = None,
                    pose = Some \<lparr>position = (x, y), linear_velocity = (0, 0)\<rparr>\<rparr>\<rparr>"

definition planning_msg :: "real \<Rightarrow> routing_response \<Rightarrow> message" where
  "planning_msg t r =
     \<lparr>channel_name = ''/apollo/planning'',
      parsed_msg = \<lparr>timestamp_sec = Some t, routing = Some r, pose = None\<rparr>\<rparr>"

text \<open>
  A localization message at time 6 whose protobuf payload has no pose, and a planning
  message at time 6 whose payload has no routing.
\<close>

definition poseless_msg :: message where
  "poseless_msg =
     proto_msg ''/apollo/localization/pose''
       \<lparr>proto_timestamp_sec = Some 6, proto_routing = None, proto_pose = None\<rparr>"

definition planless_msg :: message where
  "planless_msg =
     proto_msg ''/apollo/planning''
       \<lparr>proto_timestamp_sec = Some 6, proto_routing = None, proto_pose = None\<rparr>"

text \<open>
  The state after the warm-up on \<open>lane_a\<close>: a first localization message at time 0
  and nothing recorded yet.
\<close>

definition ex_state :: state where
  "ex_state = (init_state [])\<lparr>current_lane := Some ''lane_a'', localization_num := 1,
                               init_timestamp := Some 0\<rparr>"

text \<open>
  The state of that session at time 10, with the touch registered at time 6.
\<close>

definition ex_touch_state :: state where
  "ex_touch_state =
     ex_state\<lparr>traveled_lanes := {''lane_a''}, off_road_candidate_lane := Some ''lane_a'',
              intersect_start_time := Some 6, min_speed := 36, dist_to_boundary := 0,
              speed_diff := 36, localization_num := 6\<rparr>"

text \<open>
  A session that changes from \<open>lane_a\<close> to \<open>lane_b\<close> within the warm-up window
  and is back on \<open>lane_a\<close> at time 6; its state after the second message, and its
  final state.
\<close>

definition warm_session :: "message list" where
  "warm_session = [pose_msg 0 95 3, pose_msg 2 115 3, pose_msg 6 6 3]"

definition ex_warm_state :: state where
  "ex_warm_state = ex_state\<lparr>current_lane := Some ''lane_b'', localization_num := 2\<rparr>"

definition ex_final :: state where
  "ex_final =
     ex_state\<lparr>traveled_lanes := {''lane_a''}, min_speed := 36, dist_to_boundary := 2,
              speed_diff := 36, localization_num := 3, dist_list := [3]\<rparr>"

text \<open>
  The states of a touch that lasts one step: after the message at time 6 with the
  polygon on the boundary, and after the next message at time 7 with the car back in
  the lane.
\<close>

definition ex_first_touch :: state where
  "ex_first_touch =
     ex_state\<lparr>traveled_lanes := {''lane_a''}, off_road_candidate_lane := Some ''lane_a'',
              intersect_start_time := Some 6, min_speed := 36, dist_to_boundary := 0,
              speed_diff := 36, localization_num := 2\<rparr>"

definition ex_after_touch :: state where
  "ex_after_touch =
     ex_state\<lparr>traveled_lanes := {''lane_a''}, min_speed := 36, dist_to_boundary := 2,
              speed_diff := 36, localization_num := 3\<rparr>"

text \<open>
  A session with two touches of one step each: the polygon is on the boundary at time
  6, the car is off-lane at the times 7, 9 and 11, back with its centre on the boundary
  at time 12, and inside the lane at time 13. Its state after the message at time 11,
  with the touch of time 6 still registered.
\<close>

definition stale_session :: "message list" where
  "stale_session =
     [pose_msg 0 0 3, pose_msg 6 6 (1/2), pose_msg 7 1000 3, pose_msg 9 1000 3,
      pose_msg 11 1000 3, pose_msg 12 12 0, pose_msg 13 13 3]"

definition ex_stale_state :: state where
  "ex_stale_state =
     ex_state\<lparr>traveled_lanes := {''lane_a''}, current_lane := None,
              off_road_candidate_lane := Some ''lane_a'', intersect_start_time := Some 6,
              min_speed := 36, dist_to_boundary := 0, speed_diff := 36,
              localization_num := 5\<rparr>"

text \<open>
  What follows the touch at time 6 in a session where a planning message arrives during
  the touch, and the state after it.
\<close>

definition planned_touches :: "message list" where
  "planned_touches =
     [planning_msg 7 [[[''lane_a'']]], pose_msg 8 8 (1/2), pose_msg 10 10 (1/2)]"

definition ex_planned_state :: state where
  "ex_planned_state = ex_first_touch\<lparr>next_lanes := [''lane_a''], localization_num := 4\<rparr>"

text \<open>
  A session that drives with the polygon on the boundary (centre at distance
  \<open>1/2\<close>) from time 6 to time 12, after a first message at time 0.
\<close>

definition touch_drive :: "message list" where
  "touch_drive =
     [pose_msg 6 6 (1/2), pose_msg 7 7 (1/2), pose_msg 8 8 (1/2), pose_msg 9 9 (1/2),
      pose_msg 10 10 (1/2), pose_msg 11 11 (1/2), pose_msg 12 12 (1/2)]"

definition touch_session :: "message list" where
  "touch_session = pose_msg 0 0 (1/2) # touch_drive"

section \<open>The loops of \<^verbatim>\<open>get_next_lanes\<close>\<close>

text \<open>
  The loops append the lanes of the plan from the first occurrence of the current lane
  on, or all of them when there is no current lane.
\<close>

lemma segment_loop_char:
  "segment_loop cur segs (nl, hit) =
     (nl @ (if hit \<or> cur = None then segs else dropWhile (\<lambda>l. Some l \<noteq> cur) segs),
      hit \<or> (\<exists>l \<in> set segs. Some l = cur))"
  by (induction segs arbitrary: nl hit) (auto simp: Let_def)

lemma passage_loop_char:
  "passage_loop cur ps (nl, hit) =
     (nl @ (if hit \<or> cur = None then concat ps else dropWhile (\<lambda>l. Some l \<noteq> cur) (concat ps)),
      hit \<or> (\<exists>l \<in> set (concat ps). Some l = cur))"
proof (induction ps arbitrary: nl hit)
  case Nil
  then show ?case by simp
next
  case (Cons p ps)
  show ?case
    by (simp only: passage_loop.simps segment_loop_char Cons.IH)
       (auto simp: dropWhile_append)
qed

lemma road_loop_char:
  "road_loop cur rs (nl, hit) =
     (nl @ (if hit \<or> cur = None then concat (concat rs)
            else dropWhile (\<lambda>l. Some l \<noteq> cur) (concat (concat rs))),
      hit \<or> (\<exists>l \<in> set (concat (concat rs)). Some l = cur))"
proof (induction rs arbitrary: nl hit)
  case Nil
  then show ?case by simp
next
  case (Cons r rs)
  show ?case
    by (simp only: road_loop.simps passage_loop_char Cons.IH)
       (auto simp: dropWhile_append)
qed

lemma get_next_lanes_char:
  "get_next_lanes r cur =
     (case cur of None \<Rightarrow> plan_lanes r
      | Some c \<Rightarrow> dropWhile (\<lambda>l. l \<noteq> c) (plan_lanes r))"
  by (simp add: get_next_lanes_def plan_lanes_def road_loop_char split: option.splits)

lemma get_next_lanes_miss:
  "c \<notin> set (plan_lanes r) \<Longrightarrow> get_next_lanes r (Some c) = []"
  by (auto simp: get_next_lanes_char dropWhile_eq_Nil_conv)

lemma get_next_lanes_None: "get_next_lanes r None = plan_lanes r"
  by (simp add: get_next_lanes_char)

section \<open>The loop over the candidate lanes\<close>

lemma list_index_None: "list_index xs a = None \<longleftrightarrow> a \<notin> set xs"
  by (induction xs) (auto split: option.splits)

lemma list_index_Some: "list_index xs a = Some i \<Longrightarrow> i < length xs \<and> xs ! i = a"
  by (induction xs arbitrary: i) (auto split: option.splits if_splits)

lemma list_index_mem: "a \<in> set xs \<Longrightarrow> \<exists>i. list_index xs a = Some i"
  using list_index_None [of xs a] by (cases "list_index xs a") auto

lemma suspect_loop_hit:
  "list_index nl a = Some i \<Longrightarrow>
     suspect_loop (a # rest) nl traveled (bk, loc) = suspect_loop rest nl traveled (bk, Some i)"
  by simp

lemma suspect_loop_miss:
  "a \<notin> set nl \<Longrightarrow>
     suspect_loop (a # rest) nl traveled (bk, loc) =
       suspect_loop rest nl traveled (if a \<in> traveled then Some a else bk, loc)"
  by (simp add: list_index_None [THEN iffD2])

lemma suspect_loop_loc:
  "snd (suspect_loop cands nl traveled (bk, loc)) =
     (if filter (\<lambda>c. c \<in> set nl) cands = [] then loc
      else list_index nl (last (filter (\<lambda>c. c \<in> set nl) cands)))"
proof (induction cands arbitrary: bk loc)
  case Nil
  then show ?case by simp
next
  case (Cons a cands)
  show ?case
  proof (cases "a \<in> set nl")
    case True
    from list_index_mem [OF True] obtain i where i: "list_index nl a = Some i" ..
    show ?thesis
      unfolding suspect_loop_hit [OF i] Cons.IH
      using True i by simp
  next
    case False
    show ?thesis
      unfolding suspect_loop_miss [OF False] Cons.IH
      using False by simp
  qed
qed

lemma suspect_loop_back:
  "fst (suspect_loop cands nl traveled (bk, loc)) =
     (if filter (\<lambda>c. c \<notin> set nl \<and> c \<in> traveled) cands = [] then bk
      else Some (last (filter (\<lambda>c. c \<notin> set nl \<and> c \<in> traveled) cands)))"
proof (induction cands arbitrary: bk loc)
  case Nil
  then show ?case by simp
next
  case (Cons a cands)
  show ?case
  proof (cases "a \<in> set nl")
    case True
    from list_index_mem [OF True] obtain i where i: "list_index nl a = Some i" ..
    show ?thesis
      unfolding suspect_loop_hit [OF i] Cons.IH
      using True by simp
  next
    case False
    show ?thesis
      unfolding suspect_loop_miss [OF False] Cons.IH
      using False by simp
  qed
qed

lemma suspect_loop_loc_range:
  assumes "suspect_loop cands nl traveled (None, None) = (b, Some i)"
  shows "i < length nl"
proof -
  have "snd (suspect_loop cands nl traveled (None, None)) = Some i"
    using assms by simp
  then have "list_index nl (last (filter (\<lambda>c. c \<in> set nl) cands)) = Some i"
    unfolding suspect_loop_loc by (simp split: if_splits)
  then show ?thesis
    by (rule list_index_Some [THEN conjunct1])
qed

lemma resolve_current_lane_ok: "\<exists>cl. resolve_current_lane cands nl traveled = Inr cl"
proof -
  obtain b l where bl: "suspect_loop cands nl traveled (None, None) = (b, l)"
    by (cases "suspect_loop cands nl traveled (None, None)") auto
  show ?thesis
  proof (cases l)
    case None
    then show ?thesis
      using bl by (cases b) (simp_all add: resolve_current_lane_def)
  next
    case (Some i)
    have "i < length nl"
      using bl [unfolded Some] by (rule suspect_loop_loc_range)
    then show ?thesis
      using bl Some by (cases b) (simp_all add: resolve_current_lane_def)
  qed
qed

lemma resolve_current_lane_routing:
  assumes "length cands > 1" and "filter (\<lambda>c. c \<in> set nl) cands \<noteq> []"
  shows "resolve_current_lane cands nl traveled =
           Inr (Some (last (filter (\<lambda>c. c \<in> set nl) cands)))"
proof -
  let ?c = "last (filter (\<lambda>c. c \<in> set nl) cands)"
  have "?c \<in> set (filter (\<lambda>c. c \<in> set nl) cands)"
    using assms(2) by (rule last_in_set)
  then have mem: "?c \<in> set nl"
    by simp
  from list_index_mem [OF mem] obtain i where i: "list_index nl ?c = Some i" ..
  have "snd (suspect_loop cands nl traveled (None, None)) = Some i"
    unfolding suspect_loop_loc using assms(2) i by simp
  then obtain b where b: "suspect_loop cands nl traveled (None, None) = (b, Some i)"
    by (cases "suspect_loop cands nl traveled (None, None)") auto
  have "i < length nl" "nl ! i = ?c"
    using list_index_Some [OF i] by simp_all
  then show ?thesis
    using assms(1) b by (cases b) (simp_all add: resolve_current_lane_def)
qed

section \<open>The iteration by channel\<close>

lemma channel_names_differ: "(''/apollo/planning'' :: string) \<noteq> ''/apollo/localization/pose''"
  by simp

lemma process_msg_planning:
  assumes "channel_name m = ''/apollo/planning''"
  shows "process_msg env lns s m =
           (case timestamp_sec (parsed_msg m) of
              None \<Rightarrow> Inl AttributeError
            | Some t \<Rightarrow>
                (case routing (parsed_msg m) of
                   None \<Rightarrow> Inl AttributeError
                 | Some r \<Rightarrow> Inr (s\<lparr>next_lanes := get_next_lanes r (current_lane s)\<rparr>)))"
  using assms by (simp add: process_msg_def planning_update_def split: option.splits)

lemma process_msg_localization:
  assumes "channel_name m = ''/apollo/localization/pose''"
  shows "process_msg env lns s m =
           (case timestamp_sec (parsed_msg m) of
              None \<Rightarrow> Inl AttributeError
            | Some t \<Rightarrow> localization_update env lns s t m)"
  using assms by (simp add: process_msg_def planning_update_def split: option.splits)

lemma process_msg_other:
  assumes "channel_name m \<noteq> ''/apollo/planning''"
    and "channel_name m \<noteq> ''/apollo/localization/pose''"
  shows "process_msg env lns s m =
           (case timestamp_sec (parsed_msg m) of None \<Rightarrow> Inl AttributeError | Some t \<Rightarrow> Inr s)"
  using assms by (simp add: process_msg_def planning_update_def split: option.splits)

text \<open>The lane chosen at a localization message.\<close>

lemma localization_update_warm_up:
  assumes "pose (parsed_msg m) = Some p"
    and "resolve_current_lane (fetch_current_lanes env lns s p) (next_lanes s) (traveled_lanes s) = Inr cl"
    and "init_timestamp s = None \<or> (\<exists>t0. init_timestamp s = Some t0 \<and> t - t0 \<le> 5)"
  shows "localization_update env lns s t m =
           Inr (s\<lparr>localization_num := localization_num s + 1, current_lane := cl,
                  init_timestamp := Some (case init_timestamp s of None \<Rightarrow> t | Some t0 \<Rightarrow> t0)\<rparr>)"
  using assms
  by (auto simp: localization_update_def fetch_current_lanes_def Let_def)

lemma localization_update_graded:
  assumes "pose (parsed_msg m) = Some p"
    and "resolve_current_lane (fetch_current_lanes env lns s p) (next_lanes s) (traveled_lanes s) = Inr cl"
    and "init_timestamp s = Some t0" and "t - t0 > 5"
  shows "localization_update env lns s t m =
           grade_step env lns (s\<lparr>localization_num := localization_num s + 1, current_lane := cl\<rparr>)
             t p (calculate_speed (linear_velocity p) * 3.6)
             (length (fetch_current_lanes env lns s p))"
  using assms
  by (auto simp: localization_update_def fetch_current_lanes_def Let_def)

section \<open>The two detections\<close>

lemma speeding_detection_frame:
  "traveled_lanes (speeding_detection s lm v n) = traveled_lanes s"
  "current_lane (speeding_detection s lm v n) = current_lane s"
  "priority_lanes (speeding_detection s lm v n) = priority_lanes s"
  "off_road_candidate_lane (speeding_detection s lm v n) = off_road_candidate_lane s"
  "intersect_start_time (speeding_detection s lm v n) = intersect_start_time s"
  "next_lanes (speeding_detection s lm v n) = next_lanes s"
  "localization_num (speeding_detection s lm v n) = localization_num s"
  "init_timestamp (speeding_detection s lm v n) = init_timestamp s"
  "dist_list (speeding_detection s lm v n) = dist_list s"
  by (simp_all add: speeding_detection_def Let_def)

lemma speeding_detection_min_speed:
  "min_speed (speeding_detection s lm v n) =
     (if lm \<noteq> 0 \<or> n > 1 then min (min_speed s) (lm - v) else min_speed s)"
  by (simp add: speeding_detection_def Let_def min_def)

lemma off_road_detection_frame:
  "traveled_lanes (off_road_detection env s t p l lo) = traveled_lanes s"
  "current_lane (off_road_detection env s t p l lo) = current_lane s"
  "priority_lanes (off_road_detection env s t p l lo) = priority_lanes s"
  "next_lanes (off_road_detection env s t p l lo) = next_lanes s"
  "min_speed (off_road_detection env s t p l lo) = min_speed s"
  "speed_diff (off_road_detection env s t p l lo) = speed_diff s"
  "localization_num (off_road_detection env s t p l lo) = localization_num s"
  "init_timestamp (off_road_detection env s t p l lo) = init_timestamp s"
  by (simp_all add: off_road_detection_def Let_def split: option.splits)

text \<open>The off-road detection, case by case.\<close>

lemma off_road_register:
  assumes "off_road_candidate_lane s = None" and "polygon_distance env p lo = 0"
  shows "dist_list (off_road_detection env s t p l lo) = dist_list s"
    and "off_road_candidate_lane (off_road_detection env s t p l lo) = Some l"
    and "intersect_start_time (off_road_detection env s t p l lo) = Some t"
  using assms by (simp_all add: off_road_detection_def Let_def)

lemma off_road_touch_registered:
  assumes "off_road_candidate_lane s = Some c" and "intersect_start_time s = Some t1"
    and "polygon_distance env p lo = 0"
  shows "dist_list (off_road_detection env s t p l lo) =
           (if t - t1 \<ge> OFF_LANE_THRESHOLD
            then dist_list s @ [point_distance env (fst (position p)) (snd (position p)) lo]
            else dist_list s)"
    and "off_road_candidate_lane (off_road_detection env s t p l lo) = Some c"
    and "intersect_start_time (off_road_detection env s t p l lo) = Some t1"
  using assms by (simp_all add: off_road_detection_def Let_def)

lemma off_road_away_registered:
  assumes "intersect_start_time s = Some t1" and "polygon_distance env p lo \<noteq> 0"
  shows "dist_list (off_road_detection env s t p l lo) = dist_list s"
    and "off_road_candidate_lane (off_road_detection env s t p l lo) = None"
    and "intersect_start_time (off_road_detection env s t p l lo) = None"
  using assms by (simp_all add: off_road_detection_def Let_def)

lemma off_road_away_clear:
  assumes "intersect_start_time s = None" and "polygon_distance env p lo \<noteq> 0"
  shows "dist_list (off_road_detection env s t p l lo) =
           dist_list s @ [point_distance env (fst (position p)) (snd (position p)) lo]"
    and "off_road_candidate_lane (off_road_detection env s t p l lo) = off_road_candidate_lane s"
    and "intersect_start_time (off_road_detection env s t p l lo) = None"
  using assms by (simp_all add: off_road_detection_def Let_def)

lemma off_road_detection_paired:
  "paired s \<Longrightarrow> paired (off_road_detection env s t p l lo)"
  by (auto simp: paired_def off_road_detection_def Let_def split: option.splits)

text \<open>What a message that reaches the off-road detection does.\<close>

lemma step_lane_obj_cases:
  assumes "step_lane_obj env lns s m = Some lo"
  obtains t t0 p l where
    "channel_name m = ''/apollo/localization/pose''"
    "timestamp_sec (parsed_msg m) = Some t" "init_timestamp s = Some t0" "t - t0 > 5"
    "pose (parsed_msg m) = Some p"
    "resolve_current_lane (fetch_current_lanes env lns s p) (next_lanes s) (traveled_lanes s)
       = Inr (Some l)"
    "lns l = Some lo"
  using assms
  by (auto simp: step_lane_obj_def past_warm_up_def step_lane_def
           split: if_splits option.splits sum.splits)

lemma process_msg_graded:
  assumes "channel_name m = ''/apollo/localization/pose''"
    and "timestamp_sec (parsed_msg m) = Some t" and "init_timestamp s = Some t0" and "t - t0 > 5"
    and "pose (parsed_msg m) = Some p"
    and "resolve_current_lane (fetch_current_lanes env lns s p) (next_lanes s) (traveled_lanes s)
           = Inr (Some l)"
    and "lns l = Some lo"
  shows "process_msg env lns s m =
           Inr (off_road_detection env (graded_state env lns s p l lo) t p l lo)"
  unfolding process_msg_localization [OF assms(1)] graded_state_def
  using assms(2-) 
  by (simp add: localization_update_graded [OF assms(5,6,3,4)] grade_step_def Let_def)

section \<open>Iterations that reach the off-road detection, and those that do not\<close>

lemma graded_state_frame:
  "off_road_candidate_lane (graded_state env lns s p l lo) = off_road_candidate_lane s"
  "intersect_start_time (graded_state env lns s p l lo) = intersect_start_time s"
  "dist_list (graded_state env lns s p l lo) = dist_list s"
  "init_timestamp (graded_state env lns s p l lo) = init_timestamp s"
  "priority_lanes (graded_state env lns s p l lo) = priority_lanes s"
  "next_lanes (graded_state env lns s p l lo) = next_lanes s"
  "current_lane (graded_state env lns s p l lo) = Some l"
  "traveled_lanes (graded_state env lns s p l lo) = insert l (traveled_lanes s)"
  "localization_num (graded_state env lns s p l lo) = localization_num s + 1"
  by (simp_all add: graded_state_def speeding_detection_frame)

lemma graded_state_min_speed:
  "min_speed (graded_state env lns s p l lo) =
     (if speed_limit lo * 3.6 \<noteq> 0 \<or> length (fetch_current_lanes env lns s p) > 1
      then min (min_speed s) (speed_limit lo * 3.6 - calculate_speed (linear_velocity p) * 3.6)
      else min_speed s)"
  by (simp add: graded_state_def speeding_detection_min_speed)

lemma graded_state_paired: "paired (graded_state env lns s p l lo) = paired s"
  by (simp add: paired_def graded_state_frame)

text \<open>A message that reaches the off-road detection.\<close>

lemma step_graded:
  assumes "step_lane_obj env lns s m = Some lo"
  obtains t p l where
    "channel_name m = ''/apollo/localization/pose''"
    "timestamp_sec (parsed_msg m) = Some t" "past_warm_up s m"
    "pose (parsed_msg m) = Some p" "step_lane env lns s m = Some l" "lns l = Some lo"
    "step_boundary_distance env lns s m = Some (polygon_distance env p lo)"
    "step_center_distance env lns s m =
       Some (point_distance env (fst (position p)) (snd (position p)) lo)"
    "process_msg env lns s m =
       Inr (off_road_detection env (graded_state env lns s p l lo) t p l lo)"
proof -
  from assms obtain t t0 p l where h:
    "channel_name m = ''/apollo/localization/pose''"
    "timestamp_sec (parsed_msg m) = Some t" "init_timestamp s = Some t0" "t - t0 > 5"
    "pose (parsed_msg m) = Some p"
    "resolve_current_lane (fetch_current_lanes env lns s p) (next_lanes s) (traveled_lanes s)
       = Inr (Some l)"
    "lns l = Some lo"
    by (rule step_lane_obj_cases)
  show ?thesis
  proof (rule that [of t p l])
    show "past_warm_up s m"
      using h by (simp add: past_warm_up_def)
    show "step_lane env lns s m = Some l"
      using h by (simp add: step_lane_def)
    show "step_boundary_distance env lns s m = Some (polygon_distance env p lo)"
      using assms h by (simp add: step_boundary_distance_def)
    show "step_center_distance env lns s m =
            Some (point_distance env (fst (position p)) (snd (position p)) lo)"
      using assms h by (simp add: step_center_distance_def)
    show "process_msg env lns s m =
            Inr (off_road_detection env (graded_state env lns s p l lo) t p l lo)"
      using h by (rule process_msg_graded)
  qed (use h in simp_all)
qed

lemma boundary_distance_graded:
  assumes "step_boundary_distance env lns s m = Some d"
  obtains lo where "step_lane_obj env lns s m = Some lo"
  using assms by (auto simp: step_boundary_distance_def split: option.splits)

text \<open>A message that does not reach the off-road detection changes no record.\<close>

lemma grade_step_off_lane:
  "current_lane s = None \<Longrightarrow> grade_step env lns s t p v n = Inr s"
  by (simp add: grade_step_def)

lemma process_msg_not_graded:
  assumes "process_msg env lns s m = Inr s'" and "step_lane_obj env lns s m = None"
  shows "traveled_lanes s' = traveled_lanes s \<and> min_speed s' = min_speed s \<and>
         dist_list s' = dist_list s \<and> off_road_candidate_lane s' = off_road_candidate_lane s \<and>
         intersect_start_time s' = intersect_start_time s"
proof (cases "channel_name m = ''/apollo/localization/pose''")
  case False
  then show ?thesis
    using assms(1)
    by (auto simp: process_msg_def planning_update_def split: option.splits if_splits)
next
  case True
  from assms(1) obtain t where t: "timestamp_sec (parsed_msg m) = Some t"
    and lu: "localization_update env lns s t m = Inr s'"
    unfolding process_msg_localization [OF True] by (auto split: option.splits)
  from lu obtain p where p: "pose (parsed_msg m) = Some p"
    by (auto simp: localization_update_def split: option.splits)
  from resolve_current_lane_ok obtain cl where cl:
    "resolve_current_lane (fetch_current_lanes env lns s p) (next_lanes s) (traveled_lanes s) = Inr cl"
    ..
  show ?thesis
  proof (cases "past_warm_up s m")
    case False
    then have "init_timestamp s = None \<or> (\<exists>t0. init_timestamp s = Some t0 \<and> t - t0 \<le> 5)"
      using t by (cases "init_timestamp s") (auto simp: past_warm_up_def)
    from localization_update_warm_up [OF p cl this] lu show ?thesis
      by auto
  next
    case pw: True
    then obtain t0 where t0: "init_timestamp s = Some t0" "t - t0 > 5"
      using t by (cases "init_timestamp s") (auto simp: past_warm_up_def)
    have sl: "step_lane env lns s m = cl"
      using p cl by (simp add: step_lane_def)
    show ?thesis
    proof (cases cl)
      case None
      with localization_update_graded [OF p cl t0] lu show ?thesis
        by (auto simp: grade_step_off_lane)
    next
      case (Some l)
      have "lns l = None"
        using assms(2) True pw sl Some by (simp add: step_lane_obj_def)
      with localization_update_graded [OF p cl t0] lu Some show ?thesis
        by (simp add: grade_step_def)
    qed
  qed
qed

lemma process_msg_paired:
  assumes "process_msg env lns s m = Inr s'" and "paired s"
  shows "paired s'"
proof (cases "step_lane_obj env lns s m")
  case None
  from process_msg_not_graded [OF assms(1) None] assms(2) show ?thesis
    by (simp add: paired_def)
next
  case (Some lo)
  then obtain t p l where
    "process_msg env lns s m =
       Inr (off_road_detection env (graded_state env lns s p l lo) t p l lo)"
    by (rule step_graded)
  with assms show ?thesis
    by (auto simp: off_road_detection_paired graded_state_paired)
qed

lemma walk_loop_append:
  "walk_loop env lns s (xs @ ys) =
     (case walk_loop env lns s xs of Inl e \<Rightarrow> Inl e | Inr s' \<Rightarrow> walk_loop env lns s' ys)"
  by (induction xs arbitrary: s) (auto split: sum.splits)

lemma walk_loop_snoc:
  "walk_loop env lns s (xs @ [m]) =
     (case walk_loop env lns s xs of Inl e \<Rightarrow> Inl e | Inr s' \<Rightarrow> process_msg env lns s' m)"
  by (simp add: walk_loop_append split: sum.splits)

lemma walk_loop_paired:
  "walk_loop env lns s ms = Inr s' \<Longrightarrow> paired s \<Longrightarrow> paired s'"
  by (induction ms arbitrary: s) (auto split: sum.splits dest: process_msg_paired)

lemma init_state_paired: "paired (init_state dl)"
  by (simp add: paired_def init_state_def)

lemma process_msg_timestamp:
  "process_msg env lns s m = Inr s' \<Longrightarrow> \<exists>t. timestamp_sec (parsed_msg m) = Some t"
  by (cases "timestamp_sec (parsed_msg m)") (simp_all add: process_msg_def)

section \<open>Touches of the lane boundary\<close>

lemma touch_from_clear:
  assumes "off_road_candidate_lane s = None" and "step_boundary_distance env lns s m = Some 0"
  shows "\<exists>s' l. process_msg env lns s m = Inr s' \<and>
           off_road_candidate_lane s' = Some l \<and>
           intersect_start_time s' = timestamp_sec (parsed_msg m) \<and>
           dist_list s' = dist_list s"
proof -
  from assms(2) obtain lo where "step_lane_obj env lns s m = Some lo"
    by (rule boundary_distance_graded)
  then obtain t p l where g:
    "timestamp_sec (parsed_msg m) = Some t"
    "step_boundary_distance env lns s m = Some (polygon_distance env p lo)"
    "process_msg env lns s m =
       Inr (off_road_detection env (graded_state env lns s p l lo) t p l lo)"
    by (rule step_graded)
  have c: "off_road_candidate_lane (graded_state env lns s p l lo) = None"
    using assms(1) by (simp add: graded_state_frame)
  have d: "polygon_distance env p lo = 0"
    using assms(2) g(2) by simp
  show ?thesis
    unfolding g(1,3) by (simp add: off_road_register [OF c d] graded_state_frame)
qed

lemma touch_registered:
  assumes "off_road_candidate_lane s = Some c0" and "intersect_start_time s = Some t1"
    and "step_boundary_distance env lns s m = Some 0"
    and "timestamp_sec (parsed_msg m) = Some t"
  shows "\<exists>s' c. process_msg env lns s m = Inr s' \<and>
           off_road_candidate_lane s' = Some c0 \<and> intersect_start_time s' = Some t1 \<and>
           step_center_distance env lns s m = Some c \<and>
           dist_list s' =
             (if t - t1 \<ge> OFF_LANE_THRESHOLD then dist_list s @ [c] else dist_list s)"
proof -
  from assms(3) obtain lo where "step_lane_obj env lns s m = Some lo"
    by (rule boundary_distance_graded)
  then obtain t' p l where g:
    "timestamp_sec (parsed_msg m) = Some t'"
    "step_boundary_distance env lns s m = Some (polygon_distance env p lo)"
    "step_center_distance env lns s m =
       Some (point_distance env (fst (position p)) (snd (position p)) lo)"
    "process_msg env lns s m =
       Inr (off_road_detection env (graded_state env lns s p l lo) t' p l lo)"
    by (rule step_graded)
  have t: "t' = t"
    using assms(4) g(1) by simp
  have c: "off_road_candidate_lane (graded_state env lns s p l lo) = Some c0"
    and i: "intersect_start_time (graded_state env lns s p l lo) = Some t1"
    using assms(1,2) by (simp_all add: graded_state_frame)
  have d: "polygon_distance env p lo = 0"
    using assms(3) g(2) by simp
  show ?thesis
    unfolding g(3,4) t
    by (simp add: off_road_touch_registered [OF c i d] graded_state_frame)
qed

lemma away_registered:
  assumes "intersect_start_time s = Some t1"
    and "step_boundary_distance env lns s m = Some d" and "d \<noteq> 0"
  shows "\<exists>s'. process_msg env lns s m = Inr s' \<and>
           off_road_candidate_lane s' = None \<and> intersect_start_time s' = None \<and>
           dist_list s' = dist_list s"
proof -
  from assms(2) obtain lo where "step_lane_obj env lns s m = Some lo"
    by (rule boundary_distance_graded)
  then obtain t p l where g:
    "step_boundary_distance env lns s m = Some (polygon_distance env p lo)"
    "process_msg env lns s m =
       Inr (off_road_detection env (graded_state env lns s p l lo) t p l lo)"
    by (rule step_graded)
  have i: "intersect_start_time (graded_state env lns s p l lo) = Some t1"
    using assms(1) by (simp add: graded_state_frame)
  have d: "polygon_distance env p lo \<noteq> 0"
    using assms(2,3) g(1) by simp
  show ?thesis
    unfolding g(2) by (simp add: off_road_away_registered [OF i d] graded_state_frame)
qed

lemma away_clears:
  assumes "paired s" and "step_boundary_distance env lns s m = Some d" and "d \<noteq> 0"
  shows "\<exists>s'. process_msg env lns s m = Inr s' \<and>
           off_road_candidate_lane s' = None \<and> intersect_start_time s' = None"
proof (cases "intersect_start_time s")
  case (Some t1)
  from away_registered [OF Some assms(2,3)] show ?thesis
    by auto
next
  case None
  then have c: "off_road_candidate_lane s = None"
    using assms(1) by (simp add: paired_def)
  from assms(2) obtain lo where "step_lane_obj env lns s m = Some lo"
    by (rule boundary_distance_graded)
  then obtain t p l where g:
    "step_boundary_distance env lns s m = Some (polygon_distance env p lo)"
    "process_msg env lns s m =
       Inr (off_road_detection env (graded_state env lns s p l lo) t p l lo)"
    by (rule step_graded)
  have i: "intersect_start_time (graded_state env lns s p l lo) = None"
    using None by (simp add: graded_state_frame)
  have d: "polygon_distance env p lo \<noteq> 0"
    using assms(2,3) g(1) by simp
  show ?thesis
    unfolding g(2) using c
    by (simp add: off_road_away_clear [OF i d] graded_state_frame)
qed

lemma boundary_distance_None:
  "step_boundary_distance env lns s m = None \<longleftrightarrow> step_lane_obj env lns s m = None"
proof (cases "step_lane_obj env lns s m")
  case None
  then show ?thesis
    by (simp add: step_boundary_distance_def)
next
  case (Some lo)
  then obtain p where "step_boundary_distance env lns s m = Some (polygon_distance env p lo)"
    by (rule step_graded)
  then show ?thesis
    using Some by simp
qed

lemma idle_step:
  assumes "step_boundary_distance env lns s m = None" and "process_msg env lns s m = Inr s'"
  shows "off_road_candidate_lane s' = off_road_candidate_lane s"
    and "intersect_start_time s' = intersect_start_time s"
    and "dist_list s' = dist_list s"
  using process_msg_not_graded [OF assms(2) assms(1) [unfolded boundary_distance_None]]
  by simp_all

lemma touch_first:
  assumes "paired s" and "step_boundary_distance env lns s m = Some 0"
    and "timestamp_sec (parsed_msg m) = Some ta"
    and "case intersect_start_time s of None \<Rightarrow> True | Some t0 \<Rightarrow> t0 \<le> ta"
  shows "\<exists>s' c0 tb. process_msg env lns s m = Inr s' \<and>
           off_road_candidate_lane s' = Some c0 \<and> intersect_start_time s' = Some tb \<and>
           tb \<le> ta"
proof (cases "off_road_candidate_lane s")
  case None
  from touch_from_clear [OF None assms(2)] assms(3) show ?thesis
    by auto
next
  case (Some c0)
  then obtain t0 where t0: "intersect_start_time s = Some t0"
    using assms(1) by (auto simp: paired_def)
  with assms(4) have "t0 \<le> ta"
    by simp
  with touch_registered [OF Some t0 assms(2,3)] show ?thesis
    by auto
qed

lemma touch_young:
  assumes "paired s" and "step_boundary_distance env lns s m = Some 0"
    and "timestamp_sec (parsed_msg m) = Some t"
    and "case intersect_start_time s of None \<Rightarrow> True
         | Some t0 \<Rightarrow> t - t0 < OFF_LANE_THRESHOLD"
  shows "\<exists>s' tb. process_msg env lns s m = Inr s' \<and> intersect_start_time s' = Some tb \<and>
           dist_list s' = dist_list s"
proof (cases "off_road_candidate_lane s")
  case None
  from touch_from_clear [OF None assms(2)] assms(3) show ?thesis
    by auto
next
  case (Some c0)
  then obtain t0 where t0: "intersect_start_time s = Some t0"
    using assms(1) by (auto simp: paired_def)
  with assms(4) have "\<not> t - t0 \<ge> OFF_LANE_THRESHOLD"
    by simp
  with touch_registered [OF Some t0 assms(2,3)] show ?thesis
    by auto
qed

lemma touch_run_keeps:
  assumes "off_road_candidate_lane s = Some c0" and "intersect_start_time s = Some t1"
    and "touch_run env lns s ms"
  shows "\<exists>s'. walk_loop env lns s ms = Inr s' \<and> off_road_candidate_lane s' = Some c0 \<and>
              intersect_start_time s' = Some t1"
  using assms
proof (induction ms arbitrary: s)
  case Nil
  then show ?case by simp
next
  case (Cons m ms)
  from Cons.prems(3) obtain s1 where p: "process_msg env lns s m = Inr s1"
    and r: "touch_run env lns s1 ms"
    and d: "step_boundary_distance env lns s m = None \<or>
            step_boundary_distance env lns s m = Some 0"
    by (auto split: sum.splits)
  have "off_road_candidate_lane s1 = Some c0 \<and> intersect_start_time s1 = Some t1"
    using d
  proof
    assume "step_boundary_distance env lns s m = None"
    from idle_step(1,2) [OF this p] Cons.prems(1,2) show ?thesis
      by simp
  next
    assume d0: "step_boundary_distance env lns s m = Some 0"
    from process_msg_timestamp [OF p] obtain t where t: "timestamp_sec (parsed_msg m) = Some t" ..
    from touch_registered [OF Cons.prems(1,2) d0 t] p show ?thesis
      by auto
  qed
  then have "off_road_candidate_lane s1 = Some c0" "intersect_start_time s1 = Some t1"
    by simp_all
  from Cons.IH [OF this r] p show ?case
    by simp
qed

lemma idle_run_keeps:
  assumes "idle_run env lns s ms"
  shows "\<exists>s'. walk_loop env lns s ms = Inr s' \<and>
              off_road_candidate_lane s' = off_road_candidate_lane s \<and>
              intersect_start_time s' = intersect_start_time s \<and>
              dist_list s' = dist_list s"
  using assms
proof (induction ms arbitrary: s)
  case Nil
  then show ?case by simp
next
  case (Cons m ms)
  from Cons.prems obtain s1 where p: "process_msg env lns s m = Inr s1"
    and r: "idle_run env lns s1 ms"
    and d: "step_boundary_distance env lns s m = None"
    by (auto split: sum.splits)
  from Cons.IH [OF r] idle_step [OF d p] p show ?case
    by auto
qed

lemma touch_run_append:
  "touch_run env lns s (xs @ ys) =
     (touch_run env lns s xs \<and>
      (case walk_loop env lns s xs of Inl e \<Rightarrow> False | Inr s' \<Rightarrow> touch_run env lns s' ys))"
  by (induction xs arbitrary: s) (auto split: sum.splits)

lemma off_road_zero_sample:
  assumes "paired s"
    and "dist_list (off_road_detection env s t p l lo) = dist_list s @ [0]"
    and "point_distance env (fst (position p)) (snd (position p)) lo = 0 \<longrightarrow>
         polygon_distance env p lo = 0"
  shows "\<exists>t1. intersect_start_time s = Some t1 \<and> t - t1 \<ge> OFF_LANE_THRESHOLD \<and>
              polygon_distance env p lo = 0"
  using assms
  by (auto simp: paired_def off_road_detection_def Let_def split: if_splits option.splits)

lemma reachable_paired:
  "walk_loop env lns (init_state dl) pre = Inr s \<Longrightarrow> paired s"
  by (rule walk_loop_paired [OF _ init_state_paired])

section \<open>What the pass never changes, and the warm-up window\<close>

lemma grade_step_frame:
  assumes "grade_step env lns s t p v n = Inr s'"
  shows "priority_lanes s' = priority_lanes s" and "init_timestamp s' = init_timestamp s"
  using assms
  by (auto simp: grade_step_def Let_def off_road_detection_frame speeding_detection_frame
           split: option.splits)

lemma localization_update_frame:
  assumes "localization_update env lns s t m = Inr s'"
  shows "priority_lanes s' = priority_lanes s"
    and "init_timestamp s' = (case init_timestamp s of None \<Rightarrow> Some t | Some t0 \<Rightarrow> Some t0)"
proof -
  from assms obtain p where p: "pose (parsed_msg m) = Some p"
    by (auto simp: localization_update_def split: option.splits)
  from resolve_current_lane_ok obtain cl where cl:
    "resolve_current_lane (fetch_current_lanes env lns s p) (next_lanes s) (traveled_lanes s) = Inr cl"
    ..
  have "priority_lanes s' = priority_lanes s \<and>
        init_timestamp s' = (case init_timestamp s of None \<Rightarrow> Some t | Some t0 \<Rightarrow> Some t0)"
  proof (cases "init_timestamp s")
    case None
    with localization_update_warm_up [OF p cl, of t] assms show ?thesis
      by auto
  next
    case (Some t0)
    show ?thesis
    proof (cases "t - t0 \<le> 5")
      case True
      with Some localization_update_warm_up [OF p cl, of t] assms show ?thesis
        by auto
    next
      case False
      then have "t - t0 > 5"
        by simp
      from localization_update_graded [OF p cl Some this] assms
      have "grade_step env lns (s\<lparr>localization_num := localization_num s + 1, current_lane := cl\<rparr>)
              t p (calculate_speed (linear_velocity p) * 3.6)
              (length (fetch_current_lanes env lns s p)) = Inr s'"
        by simp
      from grade_step_frame [OF this] Some show ?thesis
        by simp
    qed
  qed
  then show "priority_lanes s' = priority_lanes s"
    and "init_timestamp s' = (case init_timestamp s of None \<Rightarrow> Some t | Some t0 \<Rightarrow> Some t0)"
    by simp_all
qed

lemma process_msg_priority_lanes:
  assumes "process_msg env lns s m = Inr s'"
  shows "priority_lanes s' = priority_lanes s"
proof (cases "channel_name m = ''/apollo/localization/pose''")
  case True
  from assms obtain t where "localization_update env lns s t m = Inr s'"
    unfolding process_msg_localization [OF True] by (auto split: option.splits)
  then show ?thesis
    by (rule localization_update_frame)
next
  case False
  then show ?thesis
    using assms
    by (auto simp: process_msg_def planning_update_def split: option.splits if_splits)
qed

lemma process_msg_init_timestamp:
  assumes "process_msg env lns s m = Inr s'"
  shows "init_timestamp s' =
           (case init_timestamp s of
              Some t0 \<Rightarrow> Some t0
            | None \<Rightarrow>
                if channel_name m = ''/apollo/localization/pose''
                then timestamp_sec (parsed_msg m) else None)"
proof (cases "channel_name m = ''/apollo/localization/pose''")
  case True
  from assms obtain t where t: "timestamp_sec (parsed_msg m) = Some t"
    and "localization_update env lns s t m = Inr s'"
    unfolding process_msg_localization [OF True] by (auto split: option.splits)
  from localization_update_frame(2) [OF this(2)] t True show ?thesis
    by (simp split: option.splits)
next
  case False
  then show ?thesis
    using assms
    by (auto simp: process_msg_def planning_update_def split: option.splits if_splits)
qed

lemma walk_loop_priority_lanes:
  "walk_loop env lns s ms = Inr s' \<Longrightarrow> priority_lanes s' = priority_lanes s"
  by (induction ms arbitrary: s) (auto split: sum.splits dest: process_msg_priority_lanes)

lemma first_timestamp_Cons:
  "first_timestamp (m # ms) =
     (if channel_name m = ''/apollo/localization/pose'' then timestamp_sec (parsed_msg m)
      else first_timestamp ms)"
  by (simp add: first_timestamp_def)

lemma first_timestamp_append:
  "first_timestamp pre = Some t0 \<Longrightarrow> first_timestamp (pre @ ys) = Some t0"
  by (cases "filter (\<lambda>m. channel_name m = ''/apollo/localization/pose'') pre")
     (simp_all add: first_timestamp_def)

lemma walk_loop_init_timestamp:
  "walk_loop env lns s ms = Inr s' \<Longrightarrow>
     init_timestamp s' =
       (case init_timestamp s of Some t0 \<Rightarrow> Some t0 | None \<Rightarrow> first_timestamp ms)"
proof (induction ms arbitrary: s)
  case Nil
  then show ?case
    by (simp add: first_timestamp_def split: option.splits)
next
  case (Cons m ms)
  from Cons.prems obtain s1 where s1: "process_msg env lns s m = Inr s1"
    and w: "walk_loop env lns s1 ms = Inr s'"
    by (auto split: sum.splits)
  from process_msg_timestamp [OF s1] obtain t where t: "timestamp_sec (parsed_msg m) = Some t" ..
  show ?case
    using Cons.IH [OF w] process_msg_init_timestamp [OF s1] t
    by (simp add: first_timestamp_Cons split: option.splits if_splits)
qed

lemma reachable_init_timestamp:
  "walk_loop env lns (init_state dl) pre = Inr s \<Longrightarrow> init_timestamp s = first_timestamp pre"
  using walk_loop_init_timestamp [of env lns "init_state dl" pre s]
  by (simp add: init_state_def)

lemma reachable_priority_lanes:
  "walk_loop env lns (init_state dl) pre = Inr s \<Longrightarrow> priority_lanes s = None"
  using walk_loop_priority_lanes [of env lns "init_state dl" pre s]
  by (simp add: init_state_def)

text \<open>The warm-up window read off the stream and read off the state agree.\<close>

lemma within_warm_up_state:
  assumes "walk_loop env lns (init_state dl) pre = Inr s" and "within_warm_up pre m"
  shows "\<not> past_warm_up s m"
proof (cases "init_timestamp s")
  case None
  then show ?thesis
    by (simp add: past_warm_up_def)
next
  case (Some t0)
  then have "first_timestamp pre = Some t0"
    using reachable_init_timestamp [OF assms(1)] by simp
  then have "first_timestamp (pre @ [m]) = Some t0"
    by (rule first_timestamp_append)
  then show ?thesis
    using assms(2) Some
    by (auto simp: within_warm_up_def past_warm_up_def split: option.splits)
qed

lemma past_warm_up_stream:
  assumes "walk_loop env lns (init_state dl) pre = Inr s" and "past_warm_up s m"
    and "channel_name m = ''/apollo/localization/pose''"
  shows "after_warm_up pre m"
proof -
  from assms(2) obtain t0 t where h: "init_timestamp s = Some t0"
    "timestamp_sec (parsed_msg m) = Some t" "t - t0 > 5"
    by (auto simp: past_warm_up_def split: option.splits)
  then have "first_timestamp pre = Some t0"
    using reachable_init_timestamp [OF assms(1)] by simp
  then have "first_timestamp (pre @ [m]) = Some t0"
    by (rule first_timestamp_append)
  then show ?thesis
    using h assms(3) by (simp add: after_warm_up_def)
qed

text \<open>Where the lanes of \<^verbatim>\<open>traveled_lanes\<close> come from.\<close>

lemma process_msg_traveled:
  assumes "process_msg env lns s m = Inr s'" and "l \<in> traveled_lanes s'"
  shows "l \<in> traveled_lanes s \<or>
         (channel_name m = ''/apollo/localization/pose'' \<and> past_warm_up s m \<and>
          current_lane s' = Some l)"
proof (cases "step_lane_obj env lns s m")
  case None
  from process_msg_not_graded [OF assms(1) None] assms(2) show ?thesis
    by simp
next
  case (Some lo)
  then obtain t p l0 where g:
    "channel_name m = ''/apollo/localization/pose''" "past_warm_up s m"
    "process_msg env lns s m =
       Inr (off_road_detection env (graded_state env lns s p l0 lo) t p l0 lo)"
    by (rule step_graded)
  have "s' = off_road_detection env (graded_state env lns s p l0 lo) t p l0 lo"
    using assms(1) g(3) by simp
  then have "traveled_lanes s' = insert l0 (traveled_lanes s)" "current_lane s' = Some l0"
    by (simp_all add: off_road_detection_frame graded_state_frame)
  with assms(2) g(1,2) show ?thesis
    by auto
qed

lemma traveled_origin:
  assumes "walk_loop env lns s0 msgs = Inr sf" and "l \<in> traveled_lanes sf"
  shows "l \<in> traveled_lanes s0 \<or>
         (\<exists>pre m post s s'. msgs = pre @ m # post \<and> walk_loop env lns s0 pre = Inr s \<and>
            process_msg env lns s m = Inr s' \<and>
            channel_name m = ''/apollo/localization/pose'' \<and> past_warm_up s m \<and>
            current_lane s' = Some l)"
  using assms
proof (induction msgs arbitrary: sf rule: rev_induct)
  case Nil
  then show ?case by simp
next
  case (snoc m ms)
  from snoc.prems(1) obtain s1 where w: "walk_loop env lns s0 ms = Inr s1"
    and p: "process_msg env lns s1 m = Inr sf"
    by (auto simp: walk_loop_snoc split: sum.splits)
  from process_msg_traveled [OF p snoc.prems(2)]
  show ?case
  proof
    assume "l \<in> traveled_lanes s1"
    from snoc.IH [OF w this] show ?thesis
    proof
      assume "l \<in> traveled_lanes s0"
      then show ?thesis ..
    next
      assume "\<exists>pre m' post s s'. ms = pre @ m' # post \<and> walk_loop env lns s0 pre = Inr s \<and>
            process_msg env lns s m' = Inr s' \<and>
            channel_name m' = ''/apollo/localization/pose'' \<and> past_warm_up s m' \<and>
            current_lane s' = Some l"
      then obtain pre m' post s s' where h: "ms = pre @ m' # post"
        "walk_loop env lns s0 pre = Inr s" "process_msg env lns s m' = Inr s'"
        "channel_name m' = ''/apollo/localization/pose''" "past_warm_up s m'"
        "current_lane s' = Some l"
        by auto
      have "ms @ [m] = pre @ m' # (post @ [m])"
        using h(1) by simp
      with h(2-) show ?thesis
        by (intro disjI2 exI [of _ pre] exI [of _ m'] exI [of _ "post @ [m]"]
            exI [of _ s] exI [of _ s']) simp
    qed
  next
    assume "channel_name m = ''/apollo/localization/pose'' \<and> past_warm_up s1 m \<and>
            current_lane sf = Some l"
    with w p show ?thesis
      by (intro disjI2 exI [of _ ms] exI [of _ m] exI [of _ "[]"]
          exI [of _ s1] exI [of _ sf]) simp
  qed
qed

section \<open>Running the pass on the small map\<close>

text \<open>
  The definitions that the simplifier unfolds to run the pass on the small map.
\<close>

lemmas ex_defs = ex_lanes_def ex_env_def pose_msg_def planning_msg_def poseless_msg_def planless_msg_def proto_msg_def proto_read_def
  ex_state_def ex_touch_state_def init_state_def sys_maxsize_def

lemmas step_defs = process_msg_def planning_update_def localization_update_def
  fetch_current_lanes_def resolve_current_lane_def grade_step_def speeding_detection_def
  off_road_detection_def calculate_speed_def OFF_LANE_THRESHOLD_def Let_def

lemmas view_defs = step_boundary_distance_def step_center_distance_def step_lane_obj_def
  step_lane_def past_warm_up_def

section \<open>The origin of a registered touch, and protobuf payloads\<close>

text \<open>A registered touch goes back to a message of the stream.\<close>

lemma touch_run_snoc:
  assumes "touch_run env lns s ms" and "walk_loop env lns s ms = Inr s0"
    and "step_boundary_distance env lns s0 m = None \<or>
         step_boundary_distance env lns s0 m = Some 0"
    and "process_msg env lns s0 m = Inr s'"
  shows "touch_run env lns s (ms @ [m])"
  using assms by (simp add: touch_run_append)

lemma touching_since_snoc:
  assumes "touching_since env lns dl ms t1"
    and "walk_loop env lns (init_state dl) ms = Inr s0"
    and "step_boundary_distance env lns s0 m = None \<or>
         step_boundary_distance env lns s0 m = Some 0"
    and "process_msg env lns s0 m = Inr s'"
  shows "touching_since env lns dl (ms @ [m]) t1"
proof -
  from assms(1) obtain pre m_reg mid s_a where h:
    "ms = pre @ m_reg # mid" "walk_loop env lns (init_state dl) pre = Inr s_a"
    "off_road_candidate_lane s_a = None"
    "step_boundary_distance env lns s_a m_reg = Some 0"
    "timestamp_sec (parsed_msg m_reg) = Some t1"
    "touch_run env lns s_a (m_reg # mid)"
    unfolding touching_since_def by auto
  have w: "walk_loop env lns s_a (m_reg # mid) = Inr s0"
    using assms(2) h(2) unfolding h(1) walk_loop_append by simp
  have r: "touch_run env lns s_a ((m_reg # mid) @ [m])"
    using h(6) w assms(3,4) by (rule touch_run_snoc)
  have e: "ms @ [m] = pre @ m_reg # (mid @ [m])"
    using h(1) by simp
  show ?thesis
    unfolding touching_since_def
    using e h(2-5) r
    by (intro exI [of _ pre] exI [of _ m_reg] exI [of _ "mid @ [m]"] exI [of _ s_a]) simp
qed

lemma touching_since_mem:
  assumes "touching_since env lns dl msgs t1"
  shows "\<exists>m \<in> set msgs. timestamp_sec (parsed_msg m) = Some t1"
proof -
  from assms obtain pre m_reg mid where "msgs = pre @ m_reg # mid"
    "timestamp_sec (parsed_msg m_reg) = Some t1"
    unfolding touching_since_def by auto
  then show ?thesis
    by (intro bexI [of _ m_reg]) simp_all
qed

lemma reachable_touching_since:
  assumes "walk_loop env lns (init_state dl) msgs = Inr s"
    and "intersect_start_time s = Some t1"
  shows "touching_since env lns dl msgs t1"
  using assms
proof (induction msgs arbitrary: s rule: rev_induct)
  case Nil
  then show ?case
    by (auto simp: init_state_def)
next
  case (snoc m ms)
  from snoc.prems(1) obtain s0 where w: "walk_loop env lns (init_state dl) ms = Inr s0"
    and p: "process_msg env lns s0 m = Inr s"
    by (auto simp: walk_loop_snoc split: sum.splits)
  have pr: "paired s0"
    using w by (rule reachable_paired)
  show ?case
  proof (cases "step_boundary_distance env lns s0 m")
    case None
    from idle_step(2) [OF None p] snoc.prems(2)
    have "intersect_start_time s0 = Some t1"
      by simp
    from snoc.IH [OF w this] have "touching_since env lns dl ms t1" .
    then show ?thesis
      using w _ p by (rule touching_since_snoc) (simp add: None)
  next
    case (Some d)
    show ?thesis
    proof (cases "d = 0")
      case False
      from away_clears [OF pr Some False] p snoc.prems(2) show ?thesis
        by auto
    next
      case True
      with Some have d0: "step_boundary_distance env lns s0 m = Some 0"
        by simp
      show ?thesis
      proof (cases "off_road_candidate_lane s0")
        case None
        from touch_from_clear [OF None d0] p snoc.prems(2)
        have t: "timestamp_sec (parsed_msg m) = Some t1"
          by auto
        have r: "touch_run env lns s0 [m]"
          using d0 p by simp
        show ?thesis
          unfolding touching_since_def
          using w None d0 t r
          by (intro exI [of _ ms] exI [of _ m] exI [of _ "[]"] exI [of _ s0]) simp
      next
        case (Some c0)
        then obtain t0 where t0: "intersect_start_time s0 = Some t0"
          using pr by (auto simp: paired_def)
        from process_msg_timestamp [OF p] obtain t where t: "timestamp_sec (parsed_msg m) = Some t" ..
        from touch_registered [OF Some t0 d0 t] p snoc.prems(2)
        have "t0 = t1"
          by auto
        with t0 have "intersect_start_time s0 = Some t1"
          by simp
        from snoc.IH [OF w this] have "touching_since env lns dl ms t1" .
        then show ?thesis
          using w _ p by (rule touching_since_snoc) (simp add: d0)
      qed
    qed
  qed
qed





section \<open>The properties\<close>

subsection \<open>A confirmed touch and its sample\<close>

text \<open>
  Claim C1, as the code has it. At a message where the off-road detection runs with a
  touch registered at \<open>t1\<close>, at least \<^verbatim>\<open>OFF_LANE_THRESHOLD\<close> before the message, and
  finds the polygon at distance 0 from the boundary, exactly one value is appended to
  \<^verbatim>\<open>dist_list\<close>: the distance of the car's centre point from the boundary. Consequently,
  in any state the pass reaches, the timestamps not decreasing: when the detection finds
  distance 0 at a message, never finds the polygon off the boundary at the messages after
  it, whatever their channels, and finds distance 0 again at a message at least
  \<^verbatim>\<open>OFF_LANE_THRESHOLD\<close> after the first, that message appends such a sample.
\<close>

theorem confirmed_touch_records_centre_distance:
  "(step_boundary_distance env lns s m = Some 0 \<and> off_road_candidate_lane s = Some c0 \<and>
    intersect_start_time s = Some t1 \<and> timestamp_sec (parsed_msg m) = Some t \<and>
    t - t1 \<ge> OFF_LANE_THRESHOLD \<longrightarrow>
      (\<exists>s' c. process_msg env lns s m = Inr s' \<and> step_center_distance env lns s m = Some c \<and>
              dist_list s' = dist_list s @ [c])) \<and>
   (walk_loop env lns (init_state dl) pre = Inr s \<and>
    (\<forall>m0 \<in> set pre. \<forall>t0. timestamp_sec (parsed_msg m0) = Some t0 \<longrightarrow> t0 \<le> ta) \<and>
    step_boundary_distance env lns s m1 = Some 0 \<and>
    timestamp_sec (parsed_msg m1) = Some ta \<and>
    touch_run env lns s (m1 # ms) \<and> walk_loop env lns s (m1 # ms) = Inr s1 \<and>
    step_boundary_distance env lns s1 mn = Some 0 \<and>
    timestamp_sec (parsed_msg mn) = Some tn \<and> tn - ta \<ge> OFF_LANE_THRESHOLD \<longrightarrow>
      (\<exists>s' c. process_msg env lns s1 mn = Inr s' \<and>
              walk_loop env lns (init_state dl) (pre @ m1 # ms @ [mn]) = Inr s' \<and>
              step_center_distance env lns s1 mn = Some c \<and>
              dist_list s' = dist_list s1 @ [c]))"
proof (rule conjI; rule impI; elim conjE)
  assume "step_boundary_distance env lns s m = Some 0" "off_road_candidate_lane s = Some c0"
    "intersect_start_time s = Some t1" "timestamp_sec (parsed_msg m) = Some t"
    "t - t1 \<ge> OFF_LANE_THRESHOLD"
  from touch_registered [OF this(2,3,1,4)] this(5)
  show "\<exists>s' c. process_msg env lns s m = Inr s' \<and> step_center_distance env lns s m = Some c \<and>
               dist_list s' = dist_list s @ [c]"
    by auto
next
  assume reach: "walk_loop env lns (init_state dl) pre = Inr s"
    and sorted: "\<forall>m0 \<in> set pre. \<forall>t0. timestamp_sec (parsed_msg m0) = Some t0 \<longrightarrow> t0 \<le> ta"
    and d1: "step_boundary_distance env lns s m1 = Some 0"
    and ta: "timestamp_sec (parsed_msg m1) = Some ta"
    and run: "touch_run env lns s (m1 # ms)"
    and w1: "walk_loop env lns s (m1 # ms) = Inr s1"
    and dn: "step_boundary_distance env lns s1 mn = Some 0"
    and tn: "timestamp_sec (parsed_msg mn) = Some tn"
    and gap: "tn - ta \<ge> OFF_LANE_THRESHOLD"
  have pr: "paired s"
    using reach by (rule reachable_paired)
  have early: "case intersect_start_time s of None \<Rightarrow> True | Some t0 \<Rightarrow> t0 \<le> ta"
  proof (cases "intersect_start_time s")
    case None
    then show ?thesis by simp
  next
    case (Some t0)
    from touching_since_mem [OF reachable_touching_since [OF reach Some]]
    obtain m_reg where "m_reg \<in> set pre" "timestamp_sec (parsed_msg m_reg) = Some t0" ..
    with sorted have "t0 \<le> ta"
      by auto
    with Some show ?thesis by simp
  qed
  from touch_first [OF pr d1 ta early] obtain sa c0 tb where sa:
    "process_msg env lns s m1 = Inr sa" "off_road_candidate_lane sa = Some c0"
    "intersect_start_time sa = Some tb" "tb \<le> ta"
    by auto
  from run sa(1) have "touch_run env lns sa ms"
    by simp
  from touch_run_keeps [OF sa(2,3) this] w1 sa(1)
  have s1: "off_road_candidate_lane s1 = Some c0" "intersect_start_time s1 = Some tb"
    by auto
  have "tn - tb \<ge> OFF_LANE_THRESHOLD"
    using gap sa(4) by simp
  with touch_registered [OF s1 dn tn] obtain s' c where s':
    "process_msg env lns s1 mn = Inr s'" "step_center_distance env lns s1 mn = Some c"
    "dist_list s' = dist_list s1 @ [c]"
    by auto
  have "walk_loop env lns s ((m1 # ms) @ [mn]) = Inr s'"
    by (simp only: walk_loop_snoc w1 sum.case s'(1))
  then have "walk_loop env lns (init_state dl) (pre @ (m1 # ms) @ [mn]) = Inr s'"
    by (simp only: walk_loop_append [of _ _ _ pre] reach sum.case)
  then have w2: "walk_loop env lns (init_state dl) (pre @ m1 # ms @ [mn]) = Inr s'"
    by simp
  from s' w2
  show "\<exists>s' c. process_msg env lns s1 mn = Inr s' \<and>
          walk_loop env lns (init_state dl) (pre @ m1 # ms @ [mn]) = Inr s' \<and>
          step_center_distance env lns s1 mn = Some c \<and> dist_list s' = dist_list s1 @ [c]"
    by (intro exI conjI)
qed

text \<open>
  An instance of both parts on the small map: the touch registered at time 6 and the
  message at time 11; and, after the first message of a session, the touch at time 6, a
  planning message and two more touches behind it, and the touch at time 11.
\<close>

theorem confirmed_touch_records_centre_distance_witness:
  "step_boundary_distance ex_env ex_lanes ex_touch_state (pose_msg 11 11 (1/2)) = Some 0 \<and>
   off_road_candidate_lane ex_touch_state = Some ''lane_a'' \<and>
   intersect_start_time ex_touch_state = Some 6 \<and>
   timestamp_sec (parsed_msg (pose_msg 11 11 (1/2))) = Some 11 \<and>
   (11::real) - 6 \<ge> OFF_LANE_THRESHOLD \<and>
   (\<exists>s' c. process_msg ex_env ex_lanes ex_touch_state (pose_msg 11 11 (1/2)) = Inr s' \<and>
           step_center_distance ex_env ex_lanes ex_touch_state (pose_msg 11 11 (1/2)) = Some c \<and>
           dist_list s' = dist_list ex_touch_state @ [c]) \<and>
   walk_loop ex_env ex_lanes (init_state []) [pose_msg 0 0 (1/2)] = Inr ex_state \<and>
   timestamp_sec (parsed_msg (pose_msg 0 0 (1/2))) = Some 0 \<and> (0::real) \<le> 6 \<and>
   step_boundary_distance ex_env ex_lanes ex_state (pose_msg 6 6 (1/2)) = Some 0 \<and>
   touch_run ex_env ex_lanes ex_state (pose_msg 6 6 (1/2) # planned_touches) \<and>
   walk_loop ex_env ex_lanes ex_state (pose_msg 6 6 (1/2) # planned_touches)
     = Inr ex_planned_state \<and>
   step_boundary_distance ex_env ex_lanes ex_planned_state (pose_msg 11 11 (1/2)) = Some 0 \<and>
   (\<exists>s' c.
      process_msg ex_env ex_lanes ex_planned_state (pose_msg 11 11 (1/2)) = Inr s' \<and>
      walk_loop ex_env ex_lanes (init_state [])
        ([pose_msg 0 0 (1/2)] @ pose_msg 6 6 (1/2) # planned_touches @ [pose_msg 11 11 (1/2)])
        = Inr s' \<and>
      step_center_distance ex_env ex_lanes ex_planned_state (pose_msg 11 11 (1/2)) = Some c \<and>
      dist_list s' = dist_list ex_planned_state @ [c])"
proof -
  have h1: "step_boundary_distance ex_env ex_lanes ex_touch_state (pose_msg 11 11 (1/2)) = Some 0"
    by (simp add: view_defs ex_defs step_defs)
  have h2: "off_road_candidate_lane ex_touch_state = Some ''lane_a''"
    "intersect_start_time ex_touch_state = Some 6"
    "timestamp_sec (parsed_msg (pose_msg 11 11 (1/2))) = Some 11"
    "(11::real) - 6 \<ge> OFF_LANE_THRESHOLD"
    "timestamp_sec (parsed_msg (pose_msg 0 0 (1/2))) = Some 0" "(0::real) \<le> 6"
    "timestamp_sec (parsed_msg (pose_msg 6 6 (1/2))) = Some 6"
    "\<forall>m0 \<in> set [pose_msg 0 0 (1/2)].
       \<forall>t0. timestamp_sec (parsed_msg m0) = Some t0 \<longrightarrow> t0 \<le> (6::real)"
    by (simp_all add: ex_defs OFF_LANE_THRESHOLD_def)
  have h3: "walk_loop ex_env ex_lanes (init_state []) [pose_msg 0 0 (1/2)] = Inr ex_state"
    "step_boundary_distance ex_env ex_lanes ex_state (pose_msg 6 6 (1/2)) = Some 0"
    "touch_run ex_env ex_lanes ex_state (pose_msg 6 6 (1/2) # planned_touches)"
    "walk_loop ex_env ex_lanes ex_state (pose_msg 6 6 (1/2) # planned_touches)
       = Inr ex_planned_state"
    "step_boundary_distance ex_env ex_lanes ex_planned_state (pose_msg 11 11 (1/2)) = Some 0"
    by (simp_all add: planned_touches_def ex_planned_state_def ex_first_touch_def
        get_next_lanes_def view_defs ex_defs step_defs)
  note inst = confirmed_touch_records_centre_distance
    [where env = ex_env and lns = ex_lanes and m = "pose_msg 11 11 (1/2)"
       and ?c0.0 = "''lane_a''" and ?t1.0 = 6 and t = 11 and dl = "[]"
       and pre = "[pose_msg 0 0 (1/2)]" and ?m1.0 = "pose_msg 6 6 (1/2)"
       and ms = planned_touches and ?s1.0 = ex_planned_state
       and mn = "pose_msg 11 11 (1/2)" and ta = 6 and tn = 11]
  have c1: "\<exists>s' c. process_msg ex_env ex_lanes ex_touch_state (pose_msg 11 11 (1/2)) = Inr s' \<and>
           step_center_distance ex_env ex_lanes ex_touch_state (pose_msg 11 11 (1/2)) = Some c \<and>
           dist_list s' = dist_list ex_touch_state @ [c]"
    by (rule inst [where s = ex_touch_state, THEN conjunct1, THEN mp]) (intro conjI; fact h1 h2)
  have c2: "\<exists>s' c.
      process_msg ex_env ex_lanes ex_planned_state (pose_msg 11 11 (1/2)) = Inr s' \<and>
      walk_loop ex_env ex_lanes (init_state [])
        ([pose_msg 0 0 (1/2)] @ pose_msg 6 6 (1/2) # planned_touches @ [pose_msg 11 11 (1/2)])
        = Inr s' \<and>
      step_center_distance ex_env ex_lanes ex_planned_state (pose_msg 11 11 (1/2)) = Some c \<and>
      dist_list s' = dist_list ex_planned_state @ [c]"
    by (rule inst [where s = ex_state, THEN conjunct2, THEN mp]) (intro conjI; fact h2 h3)
  show ?thesis
    by (intro conjI; fact h1 h2 h3 c1 c2)
qed

text \<open>
  Claim C1 as stated fails. In the session \<open>touch_session\<close> the polygon is at distance 0
  from the boundary at every message from time 6 to time 12, while the centre of the car
  is at distance \<open>1/2\<close>. The touch is registered at time 6; the messages at times 11 and
  12 each record \<open>1/2\<close>, not 0, and the list holds no 0.
\<close>

theorem confirmed_touch_sample_not_zero:
  "process_msg ex_env ex_lanes (init_state []) (pose_msg 0 0 (1/2)) = Inr ex_state \<and>
   touch_run ex_env ex_lanes ex_state touch_drive \<and>
   touch_session = pose_msg 0 0 (1/2) # touch_drive \<and>
   walk_msg_section ex_env touch_session ex_lanes {} [] []
     = Inr ({''lane_a''}, [36], [1/2, 1/2])"
  by (simp add: walk_msg_section_def touch_session_def touch_drive_def view_defs ex_defs
      step_defs)

subsection \<open>The routing match\<close>

text \<open>
  Claim C2, as the code has it. With more than one candidate lane, of which at least one
  is in \<^verbatim>\<open>next_lanes\<close>, the routing match \<^verbatim>\<open>loc\<close> left by the loop is the index in
  \<^verbatim>\<open>next_lanes\<close> of the last candidate, in iteration order, that is a member of
  \<^verbatim>\<open>next_lanes\<close> (every later hit overwrites \<^verbatim>\<open>loc\<close>), and the new current lane is
  that candidate.
\<close>

theorem routing_match_is_last_candidate:
  assumes "length current_lanes > 1"
    and "filter (\<lambda>c. c \<in> set nl) current_lanes \<noteq> []"
  shows "\<exists>i. snd (suspect_loop current_lanes nl traveled (None, None)) = Some i \<and>
             i < length nl \<and>
             nl ! i = last (filter (\<lambda>c. c \<in> set nl) current_lanes) \<and>
             resolve_current_lane current_lanes nl traveled = Inr (Some (nl ! i))"
proof -
  let ?c = "last (filter (\<lambda>c. c \<in> set nl) current_lanes)"
  have "?c \<in> set (filter (\<lambda>c. c \<in> set nl) current_lanes)"
    using assms(2) by (rule last_in_set)
  then have mem: "?c \<in> set nl"
    by simp
  from list_index_mem [OF mem] obtain i where i: "list_index nl ?c = Some i" ..
  have loc: "snd (suspect_loop current_lanes nl traveled (None, None)) = Some i"
    unfolding suspect_loop_loc using assms(2) i by simp
  have "i < length nl" "nl ! i = ?c"
    using list_index_Some [OF i] by simp_all
  then show ?thesis
    using loc resolve_current_lane_routing [OF assms, of traveled] by simp
qed

text \<open>
  An instance: both overlapping lanes are on the route, and the later candidate wins.
\<close>

theorem routing_match_is_last_candidate_witness:
  "length [''lane_a'', ''lane_b''] > 1 \<and>
   filter (\<lambda>c. c \<in> set [''lane_x'', ''lane_b'', ''lane_a'']) [''lane_a'', ''lane_b''] \<noteq> [] \<and>
   snd (suspect_loop [''lane_a'', ''lane_b''] [''lane_x'', ''lane_b'', ''lane_a''] {} (None, None))
     = Some 1 \<and>
   resolve_current_lane [''lane_a'', ''lane_b''] [''lane_x'', ''lane_b'', ''lane_a''] {}
     = Inr (Some ''lane_b'')"
  using routing_match_is_last_candidate
    [of "[''lane_a'', ''lane_b'']" "[''lane_x'', ''lane_b'', ''lane_a'']" "{}"]
  by (simp add: resolve_current_lane_def)

text \<open>
  Claim C2 as stated fails: with the candidates \<open>lane_a, lane_b\<close>, both in
  \<^verbatim>\<open>next_lanes\<close>, the first candidate in \<^verbatim>\<open>next_lanes\<close> is \<open>lane_a\<close>, and the
  code chooses \<open>lane_b\<close>.
\<close>

theorem routing_match_not_first_candidate:
  "first_routing_match [''lane_a'', ''lane_b''] [''lane_a'', ''lane_b''] = Some ''lane_a'' \<and>
   resolve_current_lane [''lane_a'', ''lane_b''] [''lane_a'', ''lane_b''] {} = Inr (Some ''lane_b'')"
  by (simp add: first_routing_match_def resolve_current_lane_def)

subsection \<open>The next lanes without a match\<close>

text \<open>
  Claim C3, as the code has it. A planning message processed while the current lane is
  some lane that does not occur in the plan leaves \<^verbatim>\<open>next_lanes\<close> empty:
  \<^verbatim>\<open>is_hit\<close> never becomes true, and nothing is appended.
\<close>

theorem next_lanes_empty_without_match:
  assumes "channel_name m = ''/apollo/planning''"
    and "timestamp_sec (parsed_msg m) = Some t" and "routing (parsed_msg m) = Some r"
    and "current_lane s = Some c" and "c \<notin> set (plan_lanes r)"
  shows "get_next_lanes r (current_lane s) = [] \<and>
         process_msg env lns s m = Inr (s\<lparr>next_lanes := []\<rparr>)"
  using assms by (simp add: process_msg_planning get_next_lanes_miss)

text \<open>
  An instance: the car is on \<open>lane_c\<close>, the plan runs over \<open>lane_a\<close> and
  \<open>lane_b\<close>.
\<close>

theorem next_lanes_empty_without_match_witness:
  "channel_name (planning_msg 1 [[[''lane_a'', ''lane_b'']]]) = ''/apollo/planning'' \<and>
   timestamp_sec (parsed_msg (planning_msg 1 [[[''lane_a'', ''lane_b'']]])) = Some 1 \<and>
   routing (parsed_msg (planning_msg 1 [[[''lane_a'', ''lane_b'']]])) = Some [[[''lane_a'', ''lane_b'']]] \<and>
   current_lane (ex_state\<lparr>current_lane := Some ''lane_c''\<rparr>) = Some ''lane_c'' \<and>
   ''lane_c'' \<notin> set (plan_lanes [[[''lane_a'', ''lane_b'']]]) \<and>
   process_msg ex_env ex_lanes (ex_state\<lparr>current_lane := Some ''lane_c''\<rparr>)
     (planning_msg 1 [[[''lane_a'', ''lane_b'']]])
     = Inr (ex_state\<lparr>current_lane := Some ''lane_c'', next_lanes := []\<rparr>)"
  using next_lanes_empty_without_match
    [of "planning_msg 1 [[[''lane_a'', ''lane_b'']]]" 1 "[[[''lane_a'', ''lane_b'']]]"
        "ex_state\<lparr>current_lane := Some ''lane_c''\<rparr>" "''lane_c''" ex_env ex_lanes]
  by (simp add: planning_msg_def plan_lanes_def ex_state_def)

text \<open>
  Claim C3 as stated fails: for the plan \<open>lane_a, lane_b\<close> and the current lane
  \<open>lane_c\<close>, \<^verbatim>\<open>get_next_lanes\<close> returns the empty list, not the plan.
\<close>

theorem next_lanes_not_full_plan_without_match:
  "''lane_c'' \<notin> set (plan_lanes [[[''lane_a'', ''lane_b'']]]) \<and>
   plan_lanes [[[''lane_a'', ''lane_b'']]] = [''lane_a'', ''lane_b''] \<and>
   get_next_lanes [[[''lane_a'', ''lane_b'']]] (Some ''lane_c'') = []"
  by (simp add: plan_lanes_def get_next_lanes_def)

subsection \<open>A step within the warm-up window\<close>

text \<open>
  Claim C4, as the code has it. A localization message with a pose whose timestamp lies
  within the warm-up window (at most 5 after the first localization message of the
  stream, itself included) is not skipped entirely: the lane is chosen before the
  warm-up test, so the step sets the carried current lane to the lane chosen for this
  message, counts the message, and sets the first timestamp if there is none yet. All
  other carried state (traveled lanes, speed margin, boundary samples, the registered
  touch, the next lanes) is left unchanged.
\<close>

theorem warm_up_step_updates_current_lane:
  assumes "walk_loop env lns (init_state dl) pre = Inr s" and "within_warm_up pre m"
    and "timestamp_sec (parsed_msg m) = Some t" and "pose (parsed_msg m) = Some p"
  shows "process_msg env lns s m =
           Inr (s\<lparr>localization_num := localization_num s + 1,
                  current_lane := step_lane env lns s m,
                  init_timestamp := Some (case init_timestamp s of None \<Rightarrow> t | Some t0 \<Rightarrow> t0)\<rparr>)"
proof -
  have ch: "channel_name m = ''/apollo/localization/pose''"
    using assms(2) by (simp add: within_warm_up_def)
  from resolve_current_lane_ok obtain cl where cl:
    "resolve_current_lane (fetch_current_lanes env lns s p) (next_lanes s) (traveled_lanes s) = Inr cl"
    ..
  have sl: "step_lane env lns s m = cl"
    using assms(4) cl by (simp add: step_lane_def)
  have "\<not> past_warm_up s m"
    using assms(1,2) by (rule within_warm_up_state)
  then have w: "init_timestamp s = None \<or> (\<exists>t0. init_timestamp s = Some t0 \<and> t - t0 \<le> 5)"
    using assms(3) by (cases "init_timestamp s") (auto simp: past_warm_up_def)
  show ?thesis
    unfolding process_msg_localization [OF ch] sl
    using assms(3) localization_update_warm_up [OF assms(4) cl w] by simp
qed

text \<open>
  An instance: the second message of \<open>warm_session\<close>, at time 2, moves the current lane
  from \<open>lane_a\<close> to \<open>lane_b\<close>.
\<close>

theorem warm_up_step_updates_current_lane_witness:
  "walk_loop ex_env ex_lanes (init_state []) [pose_msg 0 95 3] = Inr ex_state \<and>
   within_warm_up [pose_msg 0 95 3] (pose_msg 2 115 3) \<and>
   timestamp_sec (parsed_msg (pose_msg 2 115 3)) = Some 2 \<and>
   pose (parsed_msg (pose_msg 2 115 3)) = Some \<lparr>position = (115, 3), linear_velocity = (0, 0)\<rparr> \<and>
   step_lane ex_env ex_lanes ex_state (pose_msg 2 115 3) = Some ''lane_b'' \<and>
   process_msg ex_env ex_lanes ex_state (pose_msg 2 115 3) = Inr ex_warm_state"
proof -
  have a: "walk_loop ex_env ex_lanes (init_state []) [pose_msg 0 95 3] = Inr ex_state"
    "within_warm_up [pose_msg 0 95 3] (pose_msg 2 115 3)"
    "timestamp_sec (parsed_msg (pose_msg 2 115 3)) = Some 2"
    "pose (parsed_msg (pose_msg 2 115 3)) = Some \<lparr>position = (115, 3), linear_velocity = (0, 0)\<rparr>"
    by (simp_all add: within_warm_up_def first_timestamp_def ex_defs step_defs)
  have b: "step_lane ex_env ex_lanes ex_state (pose_msg 2 115 3) = Some ''lane_b''"
    by (simp add: view_defs ex_defs step_defs)
  have c: "process_msg ex_env ex_lanes ex_state (pose_msg 2 115 3) = Inr ex_warm_state"
    unfolding warm_up_step_updates_current_lane [OF a] b
    by (simp add: ex_warm_state_def ex_defs)
  show ?thesis
    by (intro conjI; fact a b c)
qed

text \<open>
  Claim C4 as stated fails: in \<open>warm_session\<close> the message at time 2 lies within the
  warm-up window of the first message at time 0; before it the current lane is
  \<open>lane_a\<close>, after it \<open>lane_b\<close>.
\<close>

theorem warm_up_step_changes_current_lane:
  "walk_loop ex_env ex_lanes (init_state []) [pose_msg 0 95 3] = Inr ex_state \<and>
   within_warm_up [pose_msg 0 95 3] (pose_msg 2 115 3) \<and>
   current_lane ex_state = Some ''lane_a'' \<and>
   process_msg ex_env ex_lanes ex_state (pose_msg 2 115 3) = Inr ex_warm_state \<and>
   current_lane ex_warm_state = Some ''lane_b''"
  by (simp add: within_warm_up_def first_timestamp_def ex_warm_state_def ex_defs step_defs)

subsection \<open>Nothing is recorded within the warm-up window\<close>

text \<open>
  Claim C5. In every pass that completes: a localization message whose timestamp is at
  most 5 after the first localization message of the stream leaves
  \<^verbatim>\<open>traveled_lanes\<close>, \<^verbatim>\<open>min_speed\<close> and \<^verbatim>\<open>dist_list\<close> as they are; and every lane in the
  final \<^verbatim>\<open>traveled_lanes\<close> is the current lane chosen at some localization message
  of the stream that lies past the warm-up window.
\<close>

theorem warm_up_records_nothing:
  assumes "walk_loop env lns (init_state dl) msgs = Inr sf"
  shows "(\<forall>pre m post s s'.
            msgs = pre @ m # post \<and> within_warm_up pre m \<and>
            walk_loop env lns (init_state dl) pre = Inr s \<and>
            process_msg env lns s m = Inr s' \<longrightarrow>
              traveled_lanes s' = traveled_lanes s \<and> min_speed s' = min_speed s \<and>
              dist_list s' = dist_list s) \<and>
         (\<forall>l \<in> traveled_lanes sf.
            \<exists>pre m post s s'.
              msgs = pre @ m # post \<and> after_warm_up pre m \<and>
              walk_loop env lns (init_state dl) pre = Inr s \<and>
              process_msg env lns s m = Inr s' \<and> current_lane s' = Some l)"
proof (rule conjI)
  show "\<forall>pre m post s s'.
            msgs = pre @ m # post \<and> within_warm_up pre m \<and>
            walk_loop env lns (init_state dl) pre = Inr s \<and>
            process_msg env lns s m = Inr s' \<longrightarrow>
              traveled_lanes s' = traveled_lanes s \<and> min_speed s' = min_speed s \<and>
              dist_list s' = dist_list s"
  proof (intro allI impI; elim conjE)
    fix pre m post s s'
    assume w: "within_warm_up pre m"
      and r: "walk_loop env lns (init_state dl) pre = Inr s"
      and p: "process_msg env lns s m = Inr s'"
    have "\<not> past_warm_up s m"
      using r w by (rule within_warm_up_state)
    then have "step_lane_obj env lns s m = None"
      by (simp add: step_lane_obj_def)
    from process_msg_not_graded [OF p this]
    show "traveled_lanes s' = traveled_lanes s \<and> min_speed s' = min_speed s \<and>
          dist_list s' = dist_list s"
      by simp
  qed
next
  show "\<forall>l \<in> traveled_lanes sf.
            \<exists>pre m post s s'.
              msgs = pre @ m # post \<and> after_warm_up pre m \<and>
              walk_loop env lns (init_state dl) pre = Inr s \<and>
              process_msg env lns s m = Inr s' \<and> current_lane s' = Some l"
  proof
    fix l
    assume "l \<in> traveled_lanes sf"
    from traveled_origin [OF assms this]
    obtain pre m post s s' where h: "msgs = pre @ m # post"
      "walk_loop env lns (init_state dl) pre = Inr s" "process_msg env lns s m = Inr s'"
      "channel_name m = ''/apollo/localization/pose''" "past_warm_up s m"
      "current_lane s' = Some l"
      by (auto simp: init_state_def)
    have "after_warm_up pre m"
      using h(2,5,4) by (rule past_warm_up_stream)
    with h show "\<exists>pre m post s s'.
              msgs = pre @ m # post \<and> after_warm_up pre m \<and>
              walk_loop env lns (init_state dl) pre = Inr s \<and>
              process_msg env lns s m = Inr s' \<and> current_lane s' = Some l"
      by (intro exI [of _ pre] exI [of _ m] exI [of _ post] exI [of _ s] exI [of _ s']) simp
  qed
qed

text \<open>
  An instance: in \<open>warm_session\<close> the message at time 2 records nothing, and
  \<open>lane_a\<close>, the one traveled lane at the end, is the lane chosen at time 6.
\<close>

theorem warm_up_records_nothing_witness:
  "walk_loop ex_env ex_lanes (init_state []) warm_session = Inr ex_final \<and>
   warm_session = [pose_msg 0 95 3] @ pose_msg 2 115 3 # [pose_msg 6 6 3] \<and>
   within_warm_up [pose_msg 0 95 3] (pose_msg 2 115 3) \<and>
   walk_loop ex_env ex_lanes (init_state []) [pose_msg 0 95 3] = Inr ex_state \<and>
   process_msg ex_env ex_lanes ex_state (pose_msg 2 115 3) = Inr ex_warm_state \<and>
   traveled_lanes ex_warm_state = traveled_lanes ex_state \<and>
   min_speed ex_warm_state = min_speed ex_state \<and>
   dist_list ex_warm_state = dist_list ex_state \<and>
   ''lane_a'' \<in> traveled_lanes ex_final \<and>
   (\<exists>pre m post s s'.
      warm_session = pre @ m # post \<and> after_warm_up pre m \<and>
      walk_loop ex_env ex_lanes (init_state []) pre = Inr s \<and>
      process_msg ex_env ex_lanes s m = Inr s' \<and> current_lane s' = Some ''lane_a'')"
proof -
  have w: "walk_loop ex_env ex_lanes (init_state []) warm_session = Inr ex_final"
    by (simp add: warm_session_def ex_final_def ex_defs step_defs)
  have a: "warm_session = [pose_msg 0 95 3] @ pose_msg 2 115 3 # [pose_msg 6 6 3]"
    "within_warm_up [pose_msg 0 95 3] (pose_msg 2 115 3)"
    "walk_loop ex_env ex_lanes (init_state []) [pose_msg 0 95 3] = Inr ex_state"
    "process_msg ex_env ex_lanes ex_state (pose_msg 2 115 3) = Inr ex_warm_state"
    by (simp_all add: warm_session_def within_warm_up_def first_timestamp_def ex_warm_state_def
        ex_defs step_defs)
  have c1: "traveled_lanes ex_warm_state = traveled_lanes ex_state \<and>
            min_speed ex_warm_state = min_speed ex_state \<and>
            dist_list ex_warm_state = dist_list ex_state"
    by (rule warm_up_records_nothing [OF w, THEN conjunct1, rule_format,
          of "[pose_msg 0 95 3]" "pose_msg 2 115 3" "[pose_msg 6 6 3]" ex_state ex_warm_state])
       (intro conjI; fact a)
  have l: "''lane_a'' \<in> traveled_lanes ex_final"
    by (simp add: ex_final_def)
  note c2 = warm_up_records_nothing [OF w, THEN conjunct2, THEN bspec, OF l]
  from c1 have c1': "traveled_lanes ex_warm_state = traveled_lanes ex_state"
    "min_speed ex_warm_state = min_speed ex_state"
    "dist_list ex_warm_state = dist_list ex_state"
    by simp_all
  show ?thesis
    by (intro conjI; fact w a c1' l c2)
qed

subsection \<open>A touch of a single step\<close>

text \<open>
  Claim C6, as the code has it. In every state the pass can reach: a message at which the
  off-road detection finds a nonzero distance leaves no touch registered. A touch that
  lasts a single step (distance 0 at one message where the detection runs, then any
  messages at which the detection does not run, then a message where it finds a nonzero
  distance) and begins with no touch registered, or with one registered less than
  \<^verbatim>\<open>OFF_LANE_THRESHOLD\<close> before it, appends nothing to \<^verbatim>\<open>dist_list\<close>, so no 0 either,
  and leaves no touch registered. And, the centre of the car lying inside its
  polygon, a message appends a 0 only if the detection finds distance 0 there, at least
  \<^verbatim>\<open>OFF_LANE_THRESHOLD\<close> after the message that registered the touch, and has not found the
  polygon off the boundary in between. Messages at which the detection does not run (the
  car off-lane, the warm-up, another channel) neither register nor clear a touch, so a
  touch registered before them counts as sustained through them.
\<close>

theorem single_touch_records_nothing:
  assumes "walk_loop env lns (init_state dl) pre = Inr s"
  shows "(step_boundary_distance env lns s m0 = Some d0 \<and> d0 \<noteq> 0 \<and>
          process_msg env lns s m0 = Inr s0 \<longrightarrow>
            off_road_candidate_lane s0 = None \<and> intersect_start_time s0 = None) \<and>
         ((case intersect_start_time s of None \<Rightarrow> True
           | Some t0 \<Rightarrow> ta - t0 < OFF_LANE_THRESHOLD) \<and>
          timestamp_sec (parsed_msg m1) = Some ta \<and>
          step_boundary_distance env lns s m1 = Some 0 \<and>
          process_msg env lns s m1 = Inr s1 \<and>
          idle_run env lns s1 ms \<and> walk_loop env lns s1 ms = Inr s1' \<and>
          step_boundary_distance env lns s1' m2 = Some d \<and> d \<noteq> 0 \<and>
          process_msg env lns s1' m2 = Inr s2 \<longrightarrow>
            dist_list s1 = dist_list s \<and> dist_list s1' = dist_list s \<and>
            dist_list s2 = dist_list s \<and>
            off_road_candidate_lane s2 = None \<and> intersect_start_time s2 = None) \<and>
         (centre_in_polygon env \<and> process_msg env lns s m = Inr s' \<and>
          dist_list s' = dist_list s @ [0] \<longrightarrow>
            (\<exists>t t1. timestamp_sec (parsed_msg m) = Some t \<and>
                    intersect_start_time s = Some t1 \<and> t - t1 \<ge> OFF_LANE_THRESHOLD \<and>
                    step_boundary_distance env lns s m = Some 0 \<and>
                    touching_since env lns dl pre t1))"
proof (intro conjI; rule impI; elim conjE)
  assume "step_boundary_distance env lns s m0 = Some d0" "d0 \<noteq> 0"
    and p0: "process_msg env lns s m0 = Inr s0"
  from away_clears [OF reachable_paired [OF assms] this(1,2)] p0
  show "off_road_candidate_lane s0 = None \<and> intersect_start_time s0 = None"
    by auto
next
  assume young: "case intersect_start_time s of None \<Rightarrow> True
           | Some t0 \<Rightarrow> ta - t0 < OFF_LANE_THRESHOLD"
    and ta: "timestamp_sec (parsed_msg m1) = Some ta"
    and d1: "step_boundary_distance env lns s m1 = Some 0"
    and p1: "process_msg env lns s m1 = Inr s1"
    and idle: "idle_run env lns s1 ms"
    and w: "walk_loop env lns s1 ms = Inr s1'"
    and d2: "step_boundary_distance env lns s1' m2 = Some d" "d \<noteq> 0"
    and p2: "process_msg env lns s1' m2 = Inr s2"
  from touch_young [OF reachable_paired [OF assms] d1 ta young] p1
  obtain t where s1: "intersect_start_time s1 = Some t" "dist_list s1 = dist_list s"
    by auto
  from idle_run_keeps [OF idle] w
  have s1': "intersect_start_time s1' = intersect_start_time s1" "dist_list s1' = dist_list s1"
    by auto
  with s1 have i: "intersect_start_time s1' = Some t"
    by simp
  from away_registered [OF i d2] p2
  have "off_road_candidate_lane s2 = None" "intersect_start_time s2 = None"
    "dist_list s2 = dist_list s1'"
    by auto
  with s1(2) s1'(2)
  show "dist_list s1 = dist_list s \<and> dist_list s1' = dist_list s \<and>
        dist_list s2 = dist_list s \<and>
        off_road_candidate_lane s2 = None \<and> intersect_start_time s2 = None"
    by simp
next
  assume geo: "centre_in_polygon env"
    and p: "process_msg env lns s m = Inr s'"
    and z: "dist_list s' = dist_list s @ [0]"
  have pr: "paired s"
    using assms by (rule reachable_paired)
  have "\<exists>t t1. timestamp_sec (parsed_msg m) = Some t \<and>
          intersect_start_time s = Some t1 \<and> t - t1 \<ge> OFF_LANE_THRESHOLD \<and>
          step_boundary_distance env lns s m = Some 0"
  proof (cases "step_lane_obj env lns s m")
    case None
    from process_msg_not_graded [OF p None] z show ?thesis
      by simp
  next
    case (Some lo)
    then obtain t p0 l where g:
      "timestamp_sec (parsed_msg m) = Some t"
      "step_boundary_distance env lns s m = Some (polygon_distance env p0 lo)"
      "process_msg env lns s m =
         Inr (off_road_detection env (graded_state env lns s p0 l lo) t p0 l lo)"
      by (rule step_graded)
    let ?g = "graded_state env lns s p0 l lo"
    have s': "s' = off_road_detection env ?g t p0 l lo"
      using p g(3) by simp
    have pg: "paired ?g"
      using pr by (simp add: graded_state_paired)
    have zg: "dist_list (off_road_detection env ?g t p0 l lo) = dist_list ?g @ [0]"
      using z s' by (simp add: graded_state_frame)
    have geo': "point_distance env (fst (position p0)) (snd (position p0)) lo = 0 \<longrightarrow>
                polygon_distance env p0 lo = 0"
      using geo by (simp add: centre_in_polygon_def)
    from off_road_zero_sample [OF pg zg geo'] g(1,2) show ?thesis
      by (simp add: graded_state_frame)
  qed
  then obtain t t1 where h: "timestamp_sec (parsed_msg m) = Some t"
    "intersect_start_time s = Some t1" "t - t1 \<ge> OFF_LANE_THRESHOLD"
    "step_boundary_distance env lns s m = Some 0"
    by auto
  from reachable_touching_since [OF assms h(2)] h
  show "\<exists>t t1. timestamp_sec (parsed_msg m) = Some t \<and>
          intersect_start_time s = Some t1 \<and> t - t1 \<ge> OFF_LANE_THRESHOLD \<and>
          step_boundary_distance env lns s m = Some 0 \<and>
          touching_since env lns dl pre t1"
    by (intro exI [of _ t] exI [of _ t1]) simp
qed

text \<open>
  An instance on the small map, in the state reached by a first message at time 0: off
  the boundary at time 6, no touch is registered; the polygon is on the boundary at time
  6, a planning message follows, the car is off the boundary at time 7, and nothing is
  recorded; with the touch registered at time 6 and the centre on the boundary at time
  12, a 0 is recorded.
\<close>

theorem single_touch_records_nothing_witness:
  "walk_loop ex_env ex_lanes (init_state []) [pose_msg 0 0 (1/2)] = Inr ex_state \<and>
   step_boundary_distance ex_env ex_lanes ex_state (pose_msg 6 6 3) = Some 2 \<and>
   process_msg ex_env ex_lanes ex_state (pose_msg 6 6 3)
     = Inr (ex_final\<lparr>localization_num := 2\<rparr>) \<and>
   off_road_candidate_lane (ex_final\<lparr>localization_num := 2\<rparr>) = None \<and>
   intersect_start_time ex_state = None \<and>
   timestamp_sec (parsed_msg (pose_msg 6 6 (1/2))) = Some 6 \<and>
   step_boundary_distance ex_env ex_lanes ex_state (pose_msg 6 6 (1/2)) = Some 0 \<and>
   process_msg ex_env ex_lanes ex_state (pose_msg 6 6 (1/2)) = Inr ex_first_touch \<and>
   idle_run ex_env ex_lanes ex_first_touch [planning_msg 7 [[[''lane_a'']]]] \<and>
   walk_loop ex_env ex_lanes ex_first_touch [planning_msg 7 [[[''lane_a'']]]]
     = Inr (ex_first_touch\<lparr>next_lanes := [''lane_a'']\<rparr>) \<and>
   step_boundary_distance ex_env ex_lanes (ex_first_touch\<lparr>next_lanes := [''lane_a'']\<rparr>)
     (pose_msg 7 7 3) = Some 2 \<and>
   (2::real) \<noteq> 0 \<and>
   process_msg ex_env ex_lanes (ex_first_touch\<lparr>next_lanes := [''lane_a'']\<rparr>) (pose_msg 7 7 3)
     = Inr (ex_after_touch\<lparr>next_lanes := [''lane_a'']\<rparr>) \<and>
   dist_list (ex_after_touch\<lparr>next_lanes := [''lane_a'']\<rparr>) = dist_list ex_state \<and>
   off_road_candidate_lane (ex_after_touch\<lparr>next_lanes := [''lane_a'']\<rparr>) = None \<and>
   walk_loop ex_env ex_lanes (init_state []) (pose_msg 0 0 (1/2) # take 5 touch_drive)
     = Inr ex_touch_state \<and>
   centre_in_polygon ex_env \<and>
   process_msg ex_env ex_lanes ex_touch_state (pose_msg 12 12 0)
     = Inr (ex_touch_state\<lparr>localization_num := 7, dist_list := [0]\<rparr>) \<and>
   intersect_start_time ex_touch_state = Some 6 \<and>
   (12::real) - 6 \<ge> OFF_LANE_THRESHOLD \<and>
   step_boundary_distance ex_env ex_lanes ex_touch_state (pose_msg 12 12 0) = Some 0 \<and>
   touching_since ex_env ex_lanes [] (pose_msg 0 0 (1/2) # take 5 touch_drive) 6"
proof -
  have w1: "walk_loop ex_env ex_lanes (init_state []) [pose_msg 0 0 (1/2)] = Inr ex_state"
    by (simp add: ex_defs step_defs)
  have z: "step_boundary_distance ex_env ex_lanes ex_state (pose_msg 6 6 3) = Some 2"
    "(2::real) \<noteq> 0"
    "process_msg ex_env ex_lanes ex_state (pose_msg 6 6 3)
       = Inr (ex_final\<lparr>localization_num := 2\<rparr>)"
    by (simp_all add: view_defs ex_defs ex_final_def step_defs)
  have a: "intersect_start_time ex_state = None"
    "case intersect_start_time ex_state of None \<Rightarrow> True
     | Some t0 \<Rightarrow> 6 - t0 < OFF_LANE_THRESHOLD"
    "timestamp_sec (parsed_msg (pose_msg 6 6 (1/2))) = Some 6"
    "step_boundary_distance ex_env ex_lanes ex_state (pose_msg 6 6 (1/2)) = Some 0"
    "process_msg ex_env ex_lanes ex_state (pose_msg 6 6 (1/2)) = Inr ex_first_touch"
    "idle_run ex_env ex_lanes ex_first_touch [planning_msg 7 [[[''lane_a'']]]]"
    "walk_loop ex_env ex_lanes ex_first_touch [planning_msg 7 [[[''lane_a'']]]]
       = Inr (ex_first_touch\<lparr>next_lanes := [''lane_a'']\<rparr>)"
    "step_boundary_distance ex_env ex_lanes (ex_first_touch\<lparr>next_lanes := [''lane_a'']\<rparr>)
       (pose_msg 7 7 3) = Some 2"
    "process_msg ex_env ex_lanes (ex_first_touch\<lparr>next_lanes := [''lane_a'']\<rparr>) (pose_msg 7 7 3)
       = Inr (ex_after_touch\<lparr>next_lanes := [''lane_a'']\<rparr>)"
    by (simp_all add: view_defs ex_defs ex_first_touch_def ex_after_touch_def
        get_next_lanes_def step_defs)
  note part0 = single_touch_records_nothing
    [OF w1, where ?m0.0 = "pose_msg 6 6 3" and ?d0.0 = 2
       and ?s0.0 = "ex_final\<lparr>localization_num := 2\<rparr>",
     THEN conjunct1, THEN mp]
  have c0: "off_road_candidate_lane (ex_final\<lparr>localization_num := 2\<rparr>) = None \<and>
            intersect_start_time (ex_final\<lparr>localization_num := 2\<rparr>) = None"
    by (rule part0) (intro conjI; fact z)
  then have c0': "off_road_candidate_lane (ex_final\<lparr>localization_num := 2\<rparr>) = None"
    by simp
  note part1 = single_touch_records_nothing
    [OF w1, where ?m1.0 = "pose_msg 6 6 (1/2)" and ta = 6 and ?s1.0 = ex_first_touch
       and ms = "[planning_msg 7 [[[''lane_a'']]]]"
       and s1' = "ex_first_touch\<lparr>next_lanes := [''lane_a'']\<rparr>"
       and ?m2.0 = "pose_msg 7 7 3" and d = 2
       and ?s2.0 = "ex_after_touch\<lparr>next_lanes := [''lane_a'']\<rparr>",
     THEN conjunct2, THEN conjunct1, THEN mp]
  have c1: "dist_list ex_first_touch = dist_list ex_state \<and>
            dist_list (ex_first_touch\<lparr>next_lanes := [''lane_a'']\<rparr>) = dist_list ex_state \<and>
            dist_list (ex_after_touch\<lparr>next_lanes := [''lane_a'']\<rparr>) = dist_list ex_state \<and>
            off_road_candidate_lane (ex_after_touch\<lparr>next_lanes := [''lane_a'']\<rparr>) = None \<and>
            intersect_start_time (ex_after_touch\<lparr>next_lanes := [''lane_a'']\<rparr>) = None"
    by (rule part1) (intro conjI; fact z a)
  have w2: "walk_loop ex_env ex_lanes (init_state []) (pose_msg 0 0 (1/2) # take 5 touch_drive)
     = Inr ex_touch_state"
    by (simp add: touch_drive_def ex_defs step_defs)
  have b: "centre_in_polygon ex_env"
    "process_msg ex_env ex_lanes ex_touch_state (pose_msg 12 12 0)
       = Inr (ex_touch_state\<lparr>localization_num := 7, dist_list := [0]\<rparr>)"
    "dist_list (ex_touch_state\<lparr>localization_num := 7, dist_list := [0]\<rparr>)
       = dist_list ex_touch_state @ [0]"
    by (simp_all add: centre_in_polygon_def ex_defs step_defs)
  note part2 = single_touch_records_nothing
    [OF w2, where m = "pose_msg 12 12 0"
       and s' = "ex_touch_state\<lparr>localization_num := 7, dist_list := [0]\<rparr>",
     THEN conjunct2, THEN conjunct2, THEN mp]
  have c2: "\<exists>t t1. timestamp_sec (parsed_msg (pose_msg 12 12 0)) = Some t \<and>
          intersect_start_time ex_touch_state = Some t1 \<and> t - t1 \<ge> OFF_LANE_THRESHOLD \<and>
          step_boundary_distance ex_env ex_lanes ex_touch_state (pose_msg 12 12 0) = Some 0 \<and>
          touching_since ex_env ex_lanes [] (pose_msg 0 0 (1/2) # take 5 touch_drive) t1"
    by (rule part2) (intro conjI; fact b)
  have e: "intersect_start_time ex_touch_state = Some 6"
    "(12::real) - 6 \<ge> OFF_LANE_THRESHOLD"
    by (simp_all add: ex_defs OFF_LANE_THRESHOLD_def)
  from c2 e(1)
  have f: "step_boundary_distance ex_env ex_lanes ex_touch_state (pose_msg 12 12 0) = Some 0"
    "touching_since ex_env ex_lanes [] (pose_msg 0 0 (1/2) # take 5 touch_drive) 6"
    by auto
  from c1 have c1': "dist_list (ex_after_touch\<lparr>next_lanes := [''lane_a'']\<rparr>) = dist_list ex_state"
    "off_road_candidate_lane (ex_after_touch\<lparr>next_lanes := [''lane_a'']\<rparr>) = None"
    by simp_all
  show ?thesis
    by (intro conjI; fact w1 z c0' a c1' w2 b e f)
qed

text \<open>
  Claim C6 as stated fails. In the session \<open>stale_session\<close> the polygon is on the
  boundary at time 6, which registers the touch; the car is off-lane at the times 7, 9
  and 11, where the detection does not run and the touch stays registered; at time 12
  the car is back for one step with its centre on the boundary, and at time 13 it is off
  the boundary. The one step at time 12 appends a 0.
\<close>

theorem stale_touch_records_zero:
  "walk_loop ex_env ex_lanes (init_state []) (take 5 stale_session) = Inr ex_stale_state \<and>
   step_boundary_distance ex_env ex_lanes (ex_stale_state\<lparr>localization_num := 4\<rparr>)
     (pose_msg 11 1000 3) = None \<and>
   step_boundary_distance ex_env ex_lanes ex_stale_state (pose_msg 12 12 0) = Some 0 \<and>
   process_msg ex_env ex_lanes ex_stale_state (pose_msg 12 12 0)
     = Inr (ex_stale_state\<lparr>current_lane := Some ''lane_a'', localization_num := 6,
                           dist_list := [0]\<rparr>) \<and>
   step_boundary_distance ex_env ex_lanes
     (ex_stale_state\<lparr>current_lane := Some ''lane_a'', localization_num := 6, dist_list := [0]\<rparr>)
     (pose_msg 13 13 3) = Some 2 \<and>
   centre_in_polygon ex_env \<and>
   walk_msg_section ex_env stale_session ex_lanes {} [] [] = Inr ({''lane_a''}, [36], [0])"
  by (simp add: walk_msg_section_def stale_session_def ex_stale_state_def centre_in_polygon_def
      view_defs ex_defs step_defs)

subsection \<open>The speed margin\<close>

text \<open>
  Claim C7. At a message past the warm-up whose chosen lane is in the map, the lane
  becomes the current lane, and the running minimum \<^verbatim>\<open>min_speed\<close> becomes the smaller of
  itself and the margin (limit minus speed, both times 3.6) if the lane's speed limit is
  nonzero or the resolver returned more than one candidate; otherwise it is unchanged.
\<close>

theorem margin_updated_iff_limit_or_ambiguous:
  assumes "step_lane_obj env lns s m = Some lo" and "pose (parsed_msg m) = Some p"
    and "process_msg env lns s m = Inr s'"
  shows "(\<exists>l. current_lane s' = Some l \<and> lns l = Some lo) \<and>
         min_speed s' =
           (if speed_limit lo \<noteq> 0 \<or> length (fetch_current_lanes env lns s p) > 1
            then min (min_speed s)
                   (speed_limit lo * 3.6 - calculate_speed (linear_velocity p) * 3.6)
            else min_speed s)"
proof -
  from assms(1) obtain t p0 l where g:
    "pose (parsed_msg m) = Some p0" "lns l = Some lo"
    "process_msg env lns s m =
       Inr (off_road_detection env (graded_state env lns s p0 l lo) t p0 l lo)"
    by (rule step_graded)
  have p0: "p0 = p"
    using assms(2) g(1) by simp
  have s': "s' = off_road_detection env (graded_state env lns s p l lo) t p l lo"
    using assms(3) g(3) p0 by simp
  show ?thesis
    unfolding s' using g(2)
    by (simp add: off_road_detection_frame graded_state_frame graded_state_min_speed)
qed

text \<open>
  Two instances on the small map past the warm-up: on \<open>lane_a\<close> (limit 10 m/s, the
  only candidate) the minimum drops to the margin 36; on \<open>lane_b\<close> (limit 0, the
  only candidate) it stays as it is.
\<close>

theorem margin_updated_iff_limit_or_ambiguous_witness:
  "step_lane_obj ex_env ex_lanes ex_state (pose_msg 6 6 3) = Some (the (ex_lanes ''lane_a'')) \<and>
   pose (parsed_msg (pose_msg 6 6 3)) = Some \<lparr>position = (6, 3), linear_velocity = (0, 0)\<rparr> \<and>
   process_msg ex_env ex_lanes ex_state (pose_msg 6 6 3)
     = Inr (ex_state\<lparr>traveled_lanes := {''lane_a''}, min_speed := 36, dist_to_boundary := 2,
                     speed_diff := 36, localization_num := 2, dist_list := [3]\<rparr>) \<and>
   min_speed (ex_state\<lparr>traveled_lanes := {''lane_a''}, min_speed := 36, dist_to_boundary := 2,
                     speed_diff := 36, localization_num := 2, dist_list := [3]\<rparr>)
     = min (min_speed ex_state) 36 \<and>
   step_lane_obj ex_env ex_lanes ex_state (pose_msg 6 120 3) = Some (the (ex_lanes ''lane_b'')) \<and>
   process_msg ex_env ex_lanes ex_state (pose_msg 6 120 3)
     = Inr (ex_state\<lparr>traveled_lanes := {''lane_b''}, current_lane := Some ''lane_b'',
                     dist_to_boundary := 2, localization_num := 2, dist_list := [3]\<rparr>) \<and>
   min_speed (ex_state\<lparr>traveled_lanes := {''lane_b''}, current_lane := Some ''lane_b'',
                     dist_to_boundary := 2, localization_num := 2, dist_list := [3]\<rparr>)
     = min_speed ex_state"
proof -
  have a: "step_lane_obj ex_env ex_lanes ex_state (pose_msg 6 6 3) = Some (the (ex_lanes ''lane_a''))"
    "pose (parsed_msg (pose_msg 6 6 3)) = Some \<lparr>position = (6, 3), linear_velocity = (0, 0)\<rparr>"
    "process_msg ex_env ex_lanes ex_state (pose_msg 6 6 3)
     = Inr (ex_state\<lparr>traveled_lanes := {''lane_a''}, min_speed := 36, dist_to_boundary := 2,
                     speed_diff := 36, localization_num := 2, dist_list := [3]\<rparr>)"
    by (simp_all add: view_defs ex_defs step_defs)
  have b: "step_lane_obj ex_env ex_lanes ex_state (pose_msg 6 120 3) = Some (the (ex_lanes ''lane_b''))"
    "pose (parsed_msg (pose_msg 6 120 3)) = Some \<lparr>position = (120, 3), linear_velocity = (0, 0)\<rparr>"
    "process_msg ex_env ex_lanes ex_state (pose_msg 6 120 3)
     = Inr (ex_state\<lparr>traveled_lanes := {''lane_b''}, current_lane := Some ''lane_b'',
                     dist_to_boundary := 2, localization_num := 2, dist_list := [3]\<rparr>)"
    by (simp_all add: view_defs ex_defs step_defs)
  from margin_updated_iff_limit_or_ambiguous [OF a]
  have c1: "min_speed (ex_state\<lparr>traveled_lanes := {''lane_a''}, min_speed := 36, dist_to_boundary := 2,
                     speed_diff := 36, localization_num := 2, dist_list := [3]\<rparr>)
     = min (min_speed ex_state) 36"
    by (simp add: ex_lanes_def calculate_speed_def)
  from margin_updated_iff_limit_or_ambiguous [OF b]
  have c2: "min_speed (ex_state\<lparr>traveled_lanes := {''lane_b''}, current_lane := Some ''lane_b'',
                     dist_to_boundary := 2, localization_num := 2, dist_list := [3]\<rparr>)
     = min_speed ex_state"
    by (simp add: ex_lanes_def ex_env_def fetch_current_lanes_def)
  show ?thesis
    by (intro conjI; fact a b c1 c2)
qed

subsection \<open>A payload that lacks a field\<close>




subsection \<open>A planning message twice\<close>

text \<open>
  Claim C9. A planning message that is processed without error sets
  \<^verbatim>\<open>next_lanes\<close> to \<^verbatim>\<open>get_next_lanes\<close> of its plan and the current lane, and leaves the
  current lane as it is; processing the same message again changes nothing, so the pass
  over the message twice equals the pass over it once.
\<close>

theorem routing_update_idempotent:
  assumes "channel_name m = ''/apollo/planning''"
    and "process_msg env lns s m = Inr s1"
  shows "\<exists>r. routing (parsed_msg m) = Some r \<and>
             next_lanes s1 = get_next_lanes r (current_lane s) \<and>
             current_lane s1 = current_lane s \<and>
             process_msg env lns s1 m = Inr s1 \<and>
             walk_loop env lns s [m, m] = walk_loop env lns s [m]"
proof -
  from assms(2) obtain t r where t: "timestamp_sec (parsed_msg m) = Some t"
    and r: "routing (parsed_msg m) = Some r"
    and s1: "s1 = s\<lparr>next_lanes := get_next_lanes r (current_lane s)\<rparr>"
    unfolding process_msg_planning [OF assms(1)] by (auto split: option.splits)
  have again: "process_msg env lns s1 m = Inr s1"
    unfolding process_msg_planning [OF assms(1)] using t r s1 by simp
  show ?thesis
    using r s1 again assms(2) by simp
qed

text \<open>
  An instance: on \<open>lane_a\<close>, the plan \<open>lane_x, lane_a, lane_b\<close> gives
  \<open>lane_a, lane_b\<close>, once or twice.
\<close>

theorem routing_update_idempotent_witness:
  "channel_name (planning_msg 1 [[[''lane_x''], [''lane_a'', ''lane_b'']]]) = ''/apollo/planning'' \<and>
   process_msg ex_env ex_lanes ex_state (planning_msg 1 [[[''lane_x''], [''lane_a'', ''lane_b'']]])
     = Inr (ex_state\<lparr>next_lanes := [''lane_a'', ''lane_b'']\<rparr>) \<and>
   process_msg ex_env ex_lanes (ex_state\<lparr>next_lanes := [''lane_a'', ''lane_b'']\<rparr>)
     (planning_msg 1 [[[''lane_x''], [''lane_a'', ''lane_b'']]])
     = Inr (ex_state\<lparr>next_lanes := [''lane_a'', ''lane_b'']\<rparr>)"
proof -
  have p: "process_msg ex_env ex_lanes ex_state (planning_msg 1 [[[''lane_x''], [''lane_a'', ''lane_b'']]])
     = Inr (ex_state\<lparr>next_lanes := [''lane_a'', ''lane_b'']\<rparr>)"
    by (simp add: process_msg_def planning_update_def planning_msg_def ex_state_def
        get_next_lanes_def)
  have c: "channel_name (planning_msg 1 [[[''lane_x''], [''lane_a'', ''lane_b'']]]) = ''/apollo/planning''"
    by (simp add: planning_msg_def)
  from routing_update_idempotent [OF c p] c p show ?thesis
    by auto
qed

subsection \<open>The priority hint\<close>

text \<open>
  Claim C10. In every state the pass reaches, \<^verbatim>\<open>priority_lanes\<close> is \<open>None\<close>: it is
  initialised so and no iteration assigns it. So the call of the lane resolver at the
  next localization message passes \<open>None\<close> as its priority hint.
\<close>

theorem priority_hint_is_none:
  assumes "walk_loop env lns (init_state dl) pre = Inr s"
  shows "priority_lanes s = None \<and>
         fetch_current_lanes env lns s p =
           efficient_fetch_lane env (fst (position p)) (snd (position p))
             (current_lane s) lns None"
  using reachable_priority_lanes [OF assms] by (simp add: fetch_current_lanes_def)

text \<open>An instance: the state after the first two messages of \<open>warm_session\<close>.\<close>

theorem priority_hint_is_none_witness:
  "walk_loop ex_env ex_lanes (init_state []) [pose_msg 0 95 3, pose_msg 2 115 3]
     = Inr ex_warm_state \<and>
   priority_lanes ex_warm_state = None \<and>
   fetch_current_lanes ex_env ex_lanes ex_warm_state \<lparr>position = (6, 3), linear_velocity = (0, 0)\<rparr>
     = efficient_fetch_lane ex_env 6 3 (Some ''lane_b'') ex_lanes None"
proof -
  have a: "walk_loop ex_env ex_lanes (init_state []) [pose_msg 0 95 3, pose_msg 2 115 3]
     = Inr ex_warm_state"
    by (simp add: ex_warm_state_def ex_defs step_defs)
  from priority_hint_is_none [OF a, of "\<lparr>position = (6, 3), linear_velocity = (0, 0)\<rparr>"]
  have "priority_lanes ex_warm_state = None"
    "fetch_current_lanes ex_env ex_lanes ex_warm_state \<lparr>position = (6, 3), linear_velocity = (0, 0)\<rparr>
     = efficient_fetch_lane ex_env 6 3 (Some ''lane_b'') ex_lanes None"
    by (simp_all add: ex_warm_state_def ex_state_def)
  with a show ?thesis
    by simp
qed

end
